theory Spec2Isabelle
  imports Complex_Main "HOL-Library.Sublist" "HOL-Library.AList"
begin

section \<open>Python values, errors and arithmetic\<close>

text \<open>
  The optimizer of \<^verbatim>\<open>research/optimizer.py\<close> takes parameter specifications typed
  \<^verbatim>\<open>Tuple[Any, ...]\<close>.  The fragment of Python values modelled here is: integers,
  floats, strings and tuples.  A Python \<^verbatim>\<open>int\<close> is unbounded and is an \<open>int\<close>; a Python
  \<^verbatim>\<open>float\<close> is idealised as an exact rational number (no rounding error, no overflow,
  no NaN), so that \<^verbatim>\<open>start * step**i\<close> is the exact product.  Exceptions are values of
  the type \<open>error\<close>; a function that may raise returns \<open>error + 'a\<close>.
\<close>

datatype error = ValueError | TypeError | AssertionError | IndexError | KeyError

datatype pynum = PInt int | PFloat rat

datatype pyval = Num pynum | Str string | Tuple "pyval list"

text \<open>\<^verbatim>\<open>isinstance(x, Sequence)\<close>: strings and tuples are sequences, numbers are not.\<close>

fun is_Sequence :: "pyval \<Rightarrow> bool" where
  "is_Sequence (Num _) = False"
| "is_Sequence (Str _) = True"
| "is_Sequence (Tuple _) = True"

text \<open>\<^verbatim>\<open>isinstance(x, int)\<close> on a number.\<close>

fun is_int :: "pynum \<Rightarrow> bool" where
  "is_int (PInt _) = True"
| "is_int (PFloat _) = False"

fun num_val :: "pynum \<Rightarrow> rat" where
  "num_val (PInt a) = of_int a"
| "num_val (PFloat r) = r"

text \<open>\<^verbatim>\<open>x * y\<close> and \<^verbatim>\<open>x + y\<close> on numbers: the result is an \<^verbatim>\<open>int\<close> only when both are.\<close>

fun num_mul :: "pynum \<Rightarrow> pynum \<Rightarrow> pynum" where
  "num_mul (PInt a) (PInt b) = PInt (a * b)"
| "num_mul x y = PFloat (num_val x * num_val y)"

fun num_add :: "pynum \<Rightarrow> pynum \<Rightarrow> pynum" where
  "num_add (PInt a) (PInt b) = PInt (a + b)"
| "num_add x y = PFloat (num_val x + num_val y)"

text \<open>\<^verbatim>\<open>x ** i\<close> for an index \<open>i\<close> of \<^verbatim>\<open>range(10)\<close>; a string or a tuple has no power.\<close>

fun py_pow :: "pyval \<Rightarrow> nat \<Rightarrow> error + pynum" where
  "py_pow (Num (PInt a)) i = Inr (PInt (a ^ i))"
| "py_pow (Num (PFloat r)) i = Inr (PFloat (r ^ i))"
| "py_pow _ i = Inl TypeError"

text \<open>\<^verbatim>\<open>x * i\<close> for an index \<open>i\<close> of \<^verbatim>\<open>range(10)\<close>; a sequence is repeated \<open>i\<close> times.\<close>

fun py_mul_int :: "pyval \<Rightarrow> nat \<Rightarrow> pyval" where
  "py_mul_int (Num x) i = Num (num_mul x (PInt (int i)))"
| "py_mul_int (Str s) i = Str (concat (replicate i s))"
| "py_mul_int (Tuple xs) i = Tuple (concat (replicate i xs))"

text \<open>\<^verbatim>\<open>x + y\<close> for a number \<open>x\<close>: adding a sequence to a number raises.\<close>

fun py_add_num :: "pynum \<Rightarrow> pyval \<Rightarrow> error + pynum" where
  "py_add_num x (Num y) = Inr (num_add x y)"
| "py_add_num x _ = Inl TypeError"

text \<open>\<^verbatim>\<open>int(x)\<close> on a number truncates towards zero.\<close>

definition py_trunc :: "rat \<Rightarrow> int" where
  "py_trunc r = (if 0 \<le> r then \<lfloor>r\<rfloor> else \<lceil>r\<rceil>)"

fun py_int :: "pynum \<Rightarrow> pynum" where
  "py_int (PInt a) = PInt a"
| "py_int (PFloat r) = PInt (py_trunc r)"

text \<open>
  \<^verbatim>\<open>round(x, 5)\<close>: an \<^verbatim>\<open>int\<close> is returned as it is, a float is rounded to five
  decimal places, a tie going to the even neighbour.
\<close>

definition round_half_even :: "rat \<Rightarrow> int" where
  "round_half_even x =
     (let f = \<lfloor>x\<rfloor>; d = x - of_int f
      in if d < 1 / 2 then f else if 1 / 2 < d then f + 1
         else if even f then f else f + 1)"

definition round5 :: "rat \<Rightarrow> rat" where
  "round5 r = of_int (round_half_even (r * 100000)) / 100000"

fun py_round5 :: "pynum \<Rightarrow> pynum" where
  "py_round5 (PInt a) = PInt a"
| "py_round5 (PFloat r) = PFloat (round5 r)"

text \<open>
  A generator expression consumed by \<^verbatim>\<open>tuple(...)\<close> computes its elements in order;
  the first element that raises ends the whole expression.
\<close>

fun sequence_err :: "(error + 'a) list \<Rightarrow> error + 'a list" where
  "sequence_err [] = Inr []"
| "sequence_err (x # xs) =
     (case x of Inl e \<Rightarrow> Inl e
      | Inr v \<Rightarrow> (case sequence_err xs of Inl e \<Rightarrow> Inl e | Inr vs \<Rightarrow> Inr (v # vs)))"

section \<open>The progression of a parameter specification\<close>

text \<open>
  \<^verbatim>\<open>Optimizer.progression\<close>.  The two generator bodies are \<open>geo_element\<close>
  (\<^verbatim>\<open>start * step**i\<close>) and \<open>lin_element\<close> (\<^verbatim>\<open>round(start + step*i, 5)\<close>).
  \<open>progression_body\<close> is the part of the method after the tuple is unpacked; its
  first equation is the case of a start that is no \<^verbatim>\<open>Sequence\<close>.
\<close>

definition geo_element :: "pynum \<Rightarrow> pyval \<Rightarrow> nat \<Rightarrow> error + pynum" where
  "geo_element start step i =
     (case py_pow step i of Inl e \<Rightarrow> Inl e | Inr p \<Rightarrow> Inr (num_mul start p))"

definition lin_element :: "pynum \<Rightarrow> pyval \<Rightarrow> nat \<Rightarrow> error + pynum" where
  "lin_element start step i =
     (case py_add_num start (py_mul_int step i) of Inl e \<Rightarrow> Inl e
      | Inr s \<Rightarrow> Inr (py_round5 s))"

fun progression_body :: "pyval \<Rightarrow> pyval \<Rightarrow> pyval \<Rightarrow> error + pyval" where
  "progression_body (Num start) step mode =
     (if mode = Str ''geo'' then
        (case sequence_err (map (geo_element start step) [0..<10]) of
           Inl e \<Rightarrow> Inl e
         | Inr t \<Rightarrow>
             if is_int start then Inr (Tuple (map (\<lambda>i. Num (py_int i)) t))
             else Inr (Tuple (map Num t)))
      else if mode = Str ''lin'' then
        (case sequence_err (map (lin_element start step) [0..<10]) of
           Inl e \<Rightarrow> Inl e
         | Inr t \<Rightarrow> Inr (Tuple (map Num t)))
      else Inl ValueError)"
| "progression_body start step mode = Inr start"

fun progression :: "pyval list \<Rightarrow> error + pyval" where
  "progression [start, step, mode] = progression_body start step mode"
| "progression [start, step] = progression_body start step (Str ''geo'')"
| "progression sp = Inl ValueError"



section \<open>The pair builder\<close>

text \<open>
  \<^verbatim>\<open>Optimizer.get_pairs\<close>: the list comprehension
  \<^verbatim>\<open>[(p_1, p_2) for p_1 in sp_1 for p_2 in sp_2]\<close> over the elements of two sequences.
\<close>

definition get_pairs :: "'a list \<Rightarrow> 'b list \<Rightarrow> ('a \<times> 'b) list" where
  "get_pairs sp_1 sp_2 = concat (map (\<lambda>p_1. map (\<lambda>p_2. (p_1, p_2)) sp_2) sp_1)"

text \<open>
  Iterating over a value: a tuple yields its elements, a string its characters as
  strings of length one, a number is not iterable.
\<close>

fun py_iter :: "pyval \<Rightarrow> error + pyval list" where
  "py_iter (Tuple xs) = Inr xs"
| "py_iter (Str s) = Inr (map (\<lambda>c. Str [c]) s)"
| "py_iter (Num _) = Inl TypeError"

section \<open>Tables of pandas\<close>

text \<open>
  A scalar of a table is a number or the missing value NaN (\<open>None\<close>).  A
  \<^verbatim>\<open>pd.Series\<close> is the list of its (label, value) entries in index order; looking a label
  up that is not in the index raises \<^verbatim>\<open>KeyError\<close>.  Index labels are taken to be
  unique.  A \<^verbatim>\<open>dict\<close> is an association list in insertion order; \<open>AList.update\<close>
  is the assignment \<^verbatim>\<open>d[k] = v\<close>: it overwrites in place or appends.
\<close>

type_synonym scalar = "rat option"

type_synonym stats_series = "(string \<times> scalar) list"

type_synonym tseries = "(nat \<times> scalar) list"

type_synonym dframe = "(string \<times> tseries) list"

definition dict_get :: "('k \<times> 'v) list \<Rightarrow> 'k \<Rightarrow> error + 'v" where
  "dict_get d k = (case map_of d k of None \<Rightarrow> Inl KeyError | Some v \<Rightarrow> Inr v)"

text \<open>
  Keys of a \<^verbatim>\<open>dict\<close> and labels of an index are compared with \<^verbatim>\<open>==\<close>, under which
  \<^verbatim>\<open>1\<close> and \<^verbatim>\<open>1.0\<close> are the same key.  \<open>hkey\<close> maps a value to the representative of
  its class, and the stores below are keyed by representatives.
\<close>

fun hkey :: "pyval \<Rightarrow> pyval" where
  "hkey (Num n) = Num (PFloat (num_val n))"
| "hkey (Str s) = Str s"
| "hkey (Tuple xs) = Tuple (map hkey xs)"

type_synonym param_pair = "pyval \<times> pyval"

definition pair_key :: "param_pair \<Rightarrow> param_pair" where
  "pair_key p = (hkey (fst p), hkey (snd p))"

text \<open>
  A metric matrix is a \<^verbatim>\<open>pd.DataFrame\<close> that starts empty and is filled by
  \<^verbatim>\<open>frame.loc[index] = value\<close> with \<open>index\<close> a pair \<open>(p_1, p_2)\<close>: pandas reads the pair
  as (row label, column label) and enlarges the frame by the row and the column that
  are not there yet.  A cell never assigned is NaN.
\<close>

record frame =
  frows :: "pyval list"
  fcols :: "pyval list"
  fcells :: "(param_pair \<times> scalar) list"

definition empty_frame :: frame where
  "empty_frame = \<lparr>frows = [], fcols = [], fcells = []\<rparr>"

definition loc_set :: "frame \<Rightarrow> param_pair \<Rightarrow> scalar \<Rightarrow> frame" where
  "loc_set fr index v =
     \<lparr>frows = (if fst index \<in> set (frows fr) then frows fr else frows fr @ [fst index]),
      fcols = (if snd index \<in> set (fcols fr) then fcols fr else fcols fr @ [snd index]),
      fcells = AList.update index v (fcells fr)\<rparr>"

definition frame_cell :: "frame \<Rightarrow> pyval \<Rightarrow> pyval \<Rightarrow> scalar" where
  "frame_cell fr r c = (case map_of (fcells fr) (r, c) of None \<Rightarrow> None | Some v \<Rightarrow> v)"

text \<open>\<^verbatim>\<open>frame.loc[index]\<close> for a pair: the cell, when the row and the column exist.\<close>

definition loc_get :: "frame \<Rightarrow> param_pair \<Rightarrow> error + scalar" where
  "loc_get fr index =
     (if fst index \<in> set (frows fr) \<and> snd index \<in> set (fcols fr)
      then Inr (frame_cell fr (fst index) (snd index)) else Inl KeyError)"

text \<open>
  The reductions of pandas skip NaN: the mean and the median of the values that are
  there, NaN when there is none.  \<^verbatim>\<open>DataFrame.mean()\<close> reduces every column over the
  rows; \<^verbatim>\<open>DataFrame.stack()\<close> lists the cells row by row and drops NaN.
\<close>

definition present :: "scalar list \<Rightarrow> rat list" where
  "present xs = concat (map (\<lambda>x. case x of None \<Rightarrow> [] | Some y \<Rightarrow> [y]) xs)"

definition mean_skipna :: "scalar list \<Rightarrow> scalar" where
  "mean_skipna xs =
     (let ys = present xs
      in if ys = [] then None else Some (sum_list ys / of_nat (length ys)))"

definition median_skipna :: "scalar list \<Rightarrow> scalar" where
  "median_skipna xs =
     (let ys = sort (present xs); n = length ys
      in if n = 0 then None
         else if odd n then Some (ys ! (n div 2))
         else Some ((ys ! (n div 2 - 1) + ys ! (n div 2)) / 2))"

definition frame_mean :: "frame \<Rightarrow> (pyval \<times> scalar) list" where
  "frame_mean fr =
     map (\<lambda>c. (c, mean_skipna (map (\<lambda>r. frame_cell fr r c) (frows fr)))) (fcols fr)"

definition series_mean :: "('l \<times> scalar) list \<Rightarrow> scalar" where
  "series_mean s = mean_skipna (map snd s)"

definition series_median :: "('l \<times> scalar) list \<Rightarrow> scalar" where
  "series_median s = median_skipna (map snd s)"

definition stack :: "frame \<Rightarrow> (param_pair \<times> scalar) list" where
  "stack fr =
     filter (\<lambda>e. snd e \<noteq> None)
       (concat (map (\<lambda>r. map (\<lambda>c. ((r, c), frame_cell fr r c)) (fcols fr)) (frows fr)))"

text \<open>
  A wide table of daily series is \<^verbatim>\<open>pd.DataFrame(d)\<close> for a \<^verbatim>\<open>dict\<close> \<open>d\<close> of series, one
  column per key.  Its index is the common index of the series when they all have the
  same one, and the sorted union of their indexes otherwise; a column has NaN where its
  series has no entry.
\<close>

record wide =
  windex :: "nat list"
  wcols :: "(param_pair \<times> scalar list) list"

definition series_at :: "tseries \<Rightarrow> nat \<Rightarrow> scalar" where
  "series_at s t = (case map_of s t of None \<Rightarrow> None | Some v \<Rightarrow> v)"

definition union_index :: "tseries list \<Rightarrow> nat list" where
  "union_index ss =
     (case ss of [] \<Rightarrow> []
      | s # rest \<Rightarrow>
          if list_all (\<lambda>s'. map fst s' = map fst s) rest then map fst s
          else sort (remdups (concat (map (map fst) ss))))"

definition DataFrame :: "(param_pair \<times> tseries) list \<Rightarrow> wide" where
  "DataFrame d =
     (let idx = union_index (map snd d)
      in \<lparr>windex = idx, wcols = map (\<lambda>(k, s). (k, map (series_at s) idx)) d\<rparr>)"

text \<open>\<^verbatim>\<open>frame.mean(axis=1)\<close>: the mean of every row over the columns.\<close>

definition wide_row :: "wide \<Rightarrow> nat \<Rightarrow> scalar list" where
  "wide_row w i = map (\<lambda>col. snd col ! i) (wcols w)"

definition mean_axis1 :: "wide \<Rightarrow> tseries" where
  "mean_axis1 w = map (\<lambda>i. (windex w ! i, mean_skipna (wide_row w i))) [0..<length (windex w)]"

text \<open>\<^verbatim>\<open>series + 1\<close> and \<^verbatim>\<open>series.cumprod()\<close>; the running product passes over NaN.\<close>

definition series_add1 :: "tseries \<Rightarrow> tseries" where
  "series_add1 s = map (\<lambda>(t, v). (t, map_option (\<lambda>x. x + 1) v)) s"

fun cumprod_from :: "rat \<Rightarrow> tseries \<Rightarrow> tseries" where
  "cumprod_from acc [] = []"
| "cumprod_from acc ((t, None) # s) = (t, None) # cumprod_from acc s"
| "cumprod_from acc ((t, Some x) # s) = (t, Some (acc * x)) # cumprod_from (acc * x) s"

definition cumprod :: "tseries \<Rightarrow> tseries" where
  "cumprod s = cumprod_from 1 s"

section \<open>Normalised metric names\<close>

text \<open>
  \<^verbatim>\<open>i.lower().replace(' ', '_').replace('/', '_').replace('.', '')\<close> of
  \<^verbatim>\<open>extract_stats\<close>.  Metric names are ASCII strings; \<open>py_lower\<close> lowers the letters
  \<open>A\<close> to \<open>Z\<close>.  \<open>py_replace\<close> is \<^verbatim>\<open>str.replace\<close> for a pattern of one character.
\<close>

definition lower_char :: "char \<Rightarrow> char" where
  "lower_char c =
     (case map_of (zip ''ABCDEFGHIJKLMNOPQRSTUVWXYZ'' ''abcdefghijklmnopqrstuvwxyz'') c of
        None \<Rightarrow> c
      | Some l \<Rightarrow> l)"

definition py_lower :: "string \<Rightarrow> string" where
  "py_lower s = map lower_char s"

definition py_replace :: "char \<Rightarrow> string \<Rightarrow> string \<Rightarrow> string" where
  "py_replace old new s = concat (map (\<lambda>c. if c = old then new else [c]) s)"

definition field_norm :: "string \<Rightarrow> string" where
  "field_norm i =
     py_replace (CHR ''.'') []
       (py_replace (CHR ''/'') ''_'' (py_replace (CHR '' '') ''_'' (py_lower i)))"

text \<open>
  The normalisation in the words of the specification: lower-case, every space replaced
  by an underscore, every \<^verbatim>\<open>/\<close> and every \<^verbatim>\<open>.\<close> removed.
\<close>

definition spec_normalize :: "string \<Rightarrow> string" where
  "spec_normalize i =
     filter (\<lambda>c. c \<noteq> CHR ''/'' \<and> c \<noteq> CHR ''.'')
       (map (\<lambda>c. if c = CHR '' '' then CHR ''_'' else c) (py_lower i))"

text \<open>What the code computes, character by character.\<close>

definition norm_char :: "char \<Rightarrow> string" where
  "norm_char c =
     (if c = CHR '' '' \<or> c = CHR ''/'' then ''_'' else if c = CHR ''.'' then [] else [c])"

section \<open>The optimizer\<close>

text \<open>
  The collaborators \<^verbatim>\<open>sig_pos\<close> and \<^verbatim>\<open>perf\<close> of \<^verbatim>\<open>vector_backtester\<close> and the strategy
  \<^verbatim>\<open>func\<close> are outside this module.  One run of
  \<^verbatim>\<open>perf(df['open'], sig_pos(func(df['close'], p_1, p_2)), slippage=slip)\<close> is a
  parameter \<open>bt slip p_1 p_2\<close> of the model; it may raise, and it returns the four
  tables that \<^verbatim>\<open>calc\<close> stores.
\<close>

record perf_out =
  stats :: stats_series
  daily :: dframe
  positions :: dframe
  df :: dframe

type_synonym backtest = "pyval \<Rightarrow> pyval \<Rightarrow> pyval \<Rightarrow> error + perf_out"

text \<open>
  The state of an \<^verbatim>\<open>Optimizer\<close> object.  \<open>raw_fields\<close> is the attribute \<^verbatim>\<open>_fields\<close>,
  \<open>norm_fields\<close> the attribute \<^verbatim>\<open>fields\<close> and \<open>table\<close> the attribute \<^verbatim>\<open>_table\<close>.  An
  attribute that is not assigned yet is empty.
\<close>

record optimizer =
  slip :: pyval
  raw_stats :: "(param_pair \<times> stats_series) list"
  raw_dailys :: "(param_pair \<times> dframe) list"
  raw_positions :: "(param_pair \<times> dframe) list"
  raw_dfs :: "(param_pair \<times> dframe) list"
  pairs :: "param_pair list"
  raw_fields :: "string list"
  field_trans :: "(string \<times> string) list"
  norm_fields :: "string list"
  table :: "(string \<times> frame) list"
  log_returns :: wide
  returns :: wide
  paths :: wide

definition empty_wide :: wide where
  "empty_wide = \<lparr>windex = [], wcols = []\<rparr>"

definition new_optimizer :: "pyval \<Rightarrow> param_pair list \<Rightarrow> optimizer" where
  "new_optimizer sl ps =
     \<lparr>slip = sl, raw_stats = [], raw_dailys = [], raw_positions = [], raw_dfs = [],
      pairs = ps, raw_fields = [], field_trans = [], norm_fields = [], table = [],
      log_returns = empty_wide, returns = empty_wide, paths = empty_wide\<rparr>"

text \<open>\<^verbatim>\<open>Optimizer.calc\<close>.\<close>

definition calc :: "backtest \<Rightarrow> optimizer \<Rightarrow> pyval \<Rightarrow> pyval \<Rightarrow> error + optimizer" where
  "calc bt st p_1 p_2 =
     (case bt (slip st) p_1 p_2 of
        Inl e \<Rightarrow> Inl e
      | Inr out \<Rightarrow>
          Inr (st\<lparr>raw_stats := AList.update (pair_key (p_1, p_2)) (stats out) (raw_stats st),
                  raw_dailys := AList.update (pair_key (p_1, p_2)) (daily out) (raw_dailys st),
                  raw_positions :=
                    AList.update (pair_key (p_1, p_2)) (positions out) (raw_positions st),
                  raw_dfs := AList.update (pair_key (p_1, p_2)) (df out) (raw_dfs st)\<rparr>))"

text \<open>
  The loop \<^verbatim>\<open>for p in self.pairs: self.calc(p[0], p[1])\<close>.  Besides the state it returns
  the pairs the backtest was invoked on, in order; an exception ends the loop.
\<close>

fun run_pairs :: "backtest \<Rightarrow> param_pair list \<Rightarrow> optimizer
    \<Rightarrow> param_pair list \<times> (error + optimizer)" where
  "run_pairs bt [] st = ([], Inr st)"
| "run_pairs bt (p # ps) st =
     (case calc bt st (fst p) (snd p) of
        Inl e \<Rightarrow> ([p], Inl e)
      | Inr st' \<Rightarrow> (case run_pairs bt ps st' of (invoked, r) \<Rightarrow> (p # invoked, r)))"

text \<open>\<^verbatim>\<open>Optimizer.extract_stats\<close>: the two dict comprehensions and the two nested loops.\<close>

definition build_field_trans :: "string list \<Rightarrow> (string \<times> string) list" where
  "build_field_trans fs = fold (\<lambda>i d. AList.update i (field_norm i) d) fs []"

definition build_table :: "string list \<Rightarrow> (string \<times> frame) list" where
  "build_table fs = fold (\<lambda>f d. AList.update f empty_frame d) fs []"

fun fill_fields :: "(string \<times> string) list \<Rightarrow> param_pair \<Rightarrow> stats_series \<Rightarrow> string list
    \<Rightarrow> (string \<times> frame) list \<Rightarrow> error + (string \<times> frame) list" where
  "fill_fields ft index stats_table [] tb = Inr tb"
| "fill_fields ft index stats_table (field # fs) tb =
     (case dict_get stats_table field of
        Inl e \<Rightarrow> Inl e
      | Inr v \<Rightarrow>
          (case dict_get ft field of
             Inl e \<Rightarrow> Inl e
           | Inr f \<Rightarrow>
               (case dict_get tb f of
                  Inl e \<Rightarrow> Inl e
                | Inr fr \<Rightarrow>
                    fill_fields ft index stats_table fs
                      (AList.update f (loc_set fr index v) tb))))"

fun fill_tables :: "(string \<times> string) list \<Rightarrow> string list
    \<Rightarrow> (param_pair \<times> stats_series) list
    \<Rightarrow> (string \<times> frame) list \<Rightarrow> error + (string \<times> frame) list" where
  "fill_tables ft fs [] tb = Inr tb"
| "fill_tables ft fs ((index, stats_table) # items) tb =
     (case fill_fields ft index stats_table fs tb of
        Inl e \<Rightarrow> Inl e
      | Inr tb' \<Rightarrow> fill_tables ft fs items tb')"

definition extract_stats :: "optimizer \<Rightarrow> error + optimizer" where
  "extract_stats st =
     (if pairs st = [] then Inl IndexError
      else
        (case dict_get (raw_stats st) (pair_key (last (pairs st))) of
           Inl e \<Rightarrow> Inl e
         | Inr ref \<Rightarrow>
             (let fs = map fst ref;
                  ft = build_field_trans fs;
                  fl = map snd ft
              in (case fill_tables ft fs (raw_stats st) (build_table fl) of
                    Inl e \<Rightarrow> Inl e
                  | Inr tb \<Rightarrow>
                      Inr (st\<lparr>raw_fields := fs, field_trans := ft, norm_fields := fl,
                              table := tb\<rparr>)))))"

text \<open>\<^verbatim>\<open>Optimizer.extract_dailys\<close>.\<close>

fun collect_dailys :: "(param_pair \<times> dframe) list
    \<Rightarrow> (param_pair \<times> tseries) list \<times> (param_pair \<times> tseries) list
        \<times> (param_pair \<times> tseries) list
    \<Rightarrow> error + (param_pair \<times> tseries) list \<times> (param_pair \<times> tseries) list
        \<times> (param_pair \<times> tseries) list" where
  "collect_dailys [] acc = Inr acc"
| "collect_dailys ((k, v) # items) (lr, r, p) =
     (case dict_get v ''lreturn'' of
        Inl e \<Rightarrow> Inl e
      | Inr a \<Rightarrow>
          (case dict_get v ''returns'' of
             Inl e \<Rightarrow> Inl e
           | Inr b \<Rightarrow>
               (case dict_get v ''balance'' of
                  Inl e \<Rightarrow> Inl e
                | Inr c \<Rightarrow>
                    collect_dailys items
                      (AList.update k a lr, AList.update k b r, AList.update k c p))))"

definition extract_dailys :: "optimizer \<Rightarrow> error + optimizer" where
  "extract_dailys st =
     (case collect_dailys (raw_dailys st) ([], [], []) of
        Inl e \<Rightarrow> Inl e
      | Inr (lr, r, p) \<Rightarrow>
          Inr (st\<lparr>log_returns := DataFrame lr, returns := DataFrame r,
                  paths := DataFrame p\<rparr>))"

text \<open>
  \<^verbatim>\<open>Optimizer.__init__\<close>.  An argument \<^verbatim>\<open>pairs\<close> that is \<^verbatim>\<open>None\<close> or empty is falsy, and so
  is an empty tuple \<^verbatim>\<open>sp_1\<close> or \<^verbatim>\<open>sp_2\<close>.  \<open>grid_pairs\<close> is the expression
  \<^verbatim>\<open>pairs or self.get_pairs(self.progression(sp_1), self.progression(sp_2))\<close>, and
  \<open>run_grid\<close> is the rest of the constructor once \<^verbatim>\<open>self.pairs\<close> is known.  The result
  is the list of pairs the backtest was invoked on, and the object or the exception
  that ended the construction.  The statement \<^verbatim>\<open>self.__dict__.update(self._table)\<close> gives
  every matrix a second name, as an attribute of the object, and is left out.
\<close>

fun truthy_pairs :: "param_pair list option \<Rightarrow> bool" where
  "truthy_pairs None = False"
| "truthy_pairs (Some ps) = (ps \<noteq> [])"

definition grid_pairs :: "pyval list \<Rightarrow> pyval list \<Rightarrow> param_pair list option
    \<Rightarrow> error + param_pair list" where
  "grid_pairs sp_1 sp_2 ps =
     (if truthy_pairs ps then Inr (the ps)
      else
        (case progression sp_1 of
           Inl e \<Rightarrow> Inl e
         | Inr s_1 \<Rightarrow>
             (case progression sp_2 of
                Inl e \<Rightarrow> Inl e
              | Inr s_2 \<Rightarrow>
                  (case py_iter s_1 of
                     Inl e \<Rightarrow> Inl e
                   | Inr xs \<Rightarrow>
                       (case py_iter s_2 of
                          Inl e \<Rightarrow> Inl e
                        | Inr ys \<Rightarrow> Inr (get_pairs xs ys))))))"

definition run_grid :: "backtest \<Rightarrow> pyval \<Rightarrow> param_pair list
    \<Rightarrow> param_pair list \<times> (error + optimizer)" where
  "run_grid bt sl ps =
     (case run_pairs bt ps (new_optimizer sl ps) of
        (invoked, Inl e) \<Rightarrow> (invoked, Inl e)
      | (invoked, Inr st) \<Rightarrow>
          (invoked,
           case extract_stats st of Inl e \<Rightarrow> Inl e | Inr st' \<Rightarrow> extract_dailys st'))"

definition Optimizer_init :: "backtest \<Rightarrow> pyval list \<Rightarrow> pyval list \<Rightarrow> pyval
    \<Rightarrow> param_pair list option \<Rightarrow> param_pair list \<times> (error + optimizer)" where
  "Optimizer_init bt sp_1 sp_2 sl ps =
     (if \<not> (truthy_pairs ps \<or> (sp_1 \<noteq> [] \<and> sp_2 \<noteq> [])) then ([], Inl AssertionError)
      else
        (case grid_pairs sp_1 sp_2 ps of
           Inl e \<Rightarrow> ([], Inl e)
         | Inr gp \<Rightarrow> run_grid bt sl gp))"

text \<open>The properties \<^verbatim>\<open>return_mean\<close>, \<^verbatim>\<open>return_median\<close>, \<^verbatim>\<open>combine\<close> and \<^verbatim>\<open>combine_paths\<close>.\<close>

definition return_mean :: "optimizer \<Rightarrow> error + scalar" where
  "return_mean st =
     (case dict_get (table st) ''annual_return'' of
        Inl e \<Rightarrow> Inl e
      | Inr fr \<Rightarrow> Inr (series_mean (frame_mean fr)))"

definition return_median :: "optimizer \<Rightarrow> error + scalar" where
  "return_median st =
     (case dict_get (table st) ''annual_return'' of
        Inl e \<Rightarrow> Inl e
      | Inr fr \<Rightarrow> Inr (series_median (stack fr)))"

definition combine :: "optimizer \<Rightarrow> tseries" where
  "combine st = mean_axis1 (returns st)"

definition combine_paths :: "optimizer \<Rightarrow> tseries" where
  "combine_paths st = cumprod (series_add1 (combine st))"

section \<open>Malformed specifications and an example backtest\<close>

text \<open>
  The specifications that the progression rejects: a tuple whose length is neither 2 nor
  3, and a tuple of length 3 whose start is a scalar and whose mode is neither
  \<^verbatim>\<open>'geo'\<close> nor \<^verbatim>\<open>'lin'\<close>.
\<close>

definition malformed :: "pyval list \<Rightarrow> bool" where
  "malformed sp =
     (case sp of
        [start, step] \<Rightarrow> False
      | [start, step, mode] \<Rightarrow>
          \<not> is_Sequence start \<and> mode \<noteq> Str ''geo'' \<and> mode \<noteq> Str ''lin''
      | _ \<Rightarrow> True)"

text \<open>
  Backtests for the concrete instances below.  \<open>example_backtest\<close> succeeds on every
  pair; its annual return is the product of the two parameters and its daily returns
  are \<open>0\<close>, \<open>p_1 / 10\<close> and \<open>- p_2 / 20\<close>.  \<open>clash_backtest\<close> reports two metrics whose
  names differ by case only.  \<open>example_run\<close> is the construction of an optimizer over
  the candidate lists \<open>(1, 2)\<close> and \<open>(1, 5)\<close>, and \<open>example_obj\<close> the object it returns.
\<close>

fun param_val :: "pyval \<Rightarrow> rat" where
  "param_val (Num n) = num_val n"
| "param_val _ = 0"

definition example_backtest :: backtest where
  "example_backtest sl p_1 p_2 =
     Inr \<lparr>stats = [(''Annual return'', Some (param_val p_1 * param_val p_2)),
                   (''Sharpe ratio'', Some (param_val p_1 + param_val p_2))],
          daily = [(''lreturn'', [(0, Some 0), (1, Some 0), (2, Some 0)]),
                   (''returns'', [(0, Some 0), (1, Some (param_val p_1 / 10)),
                                  (2, Some (- param_val p_2 / 20))]),
                   (''balance'', [(0, Some 1), (1, Some 1), (2, Some 1)])],
          positions = [], df = []\<rparr>"

definition clash_backtest :: backtest where
  "clash_backtest sl p_1 p_2 =
     Inr \<lparr>stats = [(''A'', Some 1), (''a'', Some 2)],
          daily = [(''lreturn'', [(0, Some 0)]), (''returns'', [(0, Some 0)]),
                   (''balance'', [(0, Some 1)])],
          positions = [], df = []\<rparr>"

definition example_run :: "param_pair list \<times> (error + optimizer)" where
  "example_run =
     Optimizer_init example_backtest
       [Tuple [Num (PInt 1), Num (PInt 2)], Num (PInt 1)]
       [Tuple [Num (PInt 1), Num (PInt 5)], Num (PInt 1)]
       (Num (PFloat (3 / 2))) None"

definition example_obj :: optimizer where
  "example_obj = projr (snd example_run)"

text \<open>
  A frame has an entry for a pair when the row and the column of the pair exist and the
  cell was assigned.
\<close>

definition has_entry :: "frame \<Rightarrow> param_pair \<Rightarrow> scalar \<Rightarrow> bool" where
  "has_entry fr index v =
     (fst index \<in> set (frows fr) \<and> snd index \<in> set (fcols fr)
      \<and> map_of (fcells fr) index = Some v)"

definition tab_entry :: "(string \<times> frame) list \<Rightarrow> string \<Rightarrow> param_pair \<Rightarrow> scalar \<Rightarrow> bool" where
  "tab_entry tb n index v =
     (case map_of tb n of None \<Rightarrow> False | Some fr \<Rightarrow> has_entry fr index v)"

text \<open>
  The mean and the median of a list of numbers, the number in a cell, and a frame all
  of whose cells hold a number.
\<close>

definition mean :: "rat list \<Rightarrow> rat" where
  "mean xs = sum_list xs / of_nat (length xs)"

definition median :: "rat list \<Rightarrow> rat" where
  "median xs =
     (let ys = sort xs; n = length ys
      in if odd n then ys ! (n div 2) else (ys ! (n div 2 - 1) + ys ! (n div 2)) / 2)"

definition cell_val :: "frame \<Rightarrow> pyval \<Rightarrow> pyval \<Rightarrow> rat" where
  "cell_val fr r c = the (frame_cell fr r c)"

definition full_grid :: "frame \<Rightarrow> bool" where
  "full_grid fr =
     (frows fr \<noteq> [] \<and> fcols fr \<noteq> []
      \<and> list_all (\<lambda>r. list_all (\<lambda>c. frame_cell fr r c \<noteq> None) (fcols fr)) (frows fr))"

text \<open>
  The matrix of annual returns of \<open>example_obj\<close>, and a second construction, over the
  explicit pairs \<open>(0, 2)\<close> and \<open>(2, 0)\<close>, whose combined returns are \<open>0\<close>, \<open>0.1\<close> and
  \<open>-0.05\<close>.
\<close>

definition example_frame :: frame where
  "example_frame =
     \<lparr>frows = [Num (PFloat 1), Num (PFloat 2)],
      fcols = [Num (PFloat 1), Num (PFloat 5)],
      fcells =
        [((Num (PFloat 1), Num (PFloat 1)), Some 1),
         ((Num (PFloat 1), Num (PFloat 5)), Some 5),
         ((Num (PFloat 2), Num (PFloat 1)), Some 2),
         ((Num (PFloat 2), Num (PFloat 5)), Some 10)]\<rparr>"

definition combine_run :: "param_pair list \<times> (error + optimizer)" where
  "combine_run =
     Optimizer_init example_backtest [] [] (Num (PFloat (3 / 2)))
       (Some [(Num (PInt 0), Num (PInt 2)), (Num (PInt 2), Num (PInt 0))])"

definition combine_obj :: optimizer where
  "combine_obj = projr (snd combine_run)"

section \<open>Properties of the progression\<close>










text \<open>
  C9.  When the start of a specification of length 2 or 3 is itself a sequence, the
  progression is that sequence, unchanged, whatever the step and the mode are.
\<close>

theorem progression_sequence_start:
  "is_Sequence start \<Longrightarrow>
     progression [start, step] = Inr start \<and> progression [start, step, mode] = Inr start"
  by (cases start) simp_all

theorem progression_sequence_start_witness:
  "is_Sequence (Tuple [Num (PInt 5), Num (PInt 7)])
   \<and> progression [Tuple [Num (PInt 5), Num (PInt 7)], Str ''x''] = Inr (Tuple [Num (PInt 5), Num (PInt 7)])
   \<and> progression [Tuple [Num (PInt 5), Num (PInt 7)], Str ''x'', Str ''bogus'']
       = Inr (Tuple [Num (PInt 5), Num (PInt 7)])"
  using progression_sequence_start
    [of "Tuple [Num (PInt 5), Num (PInt 7)]" "Str ''x''" "Str ''bogus''"]
  by simp


section \<open>Properties of the pair builder and of the metric names\<close>

lemma py_replace_concat:
  "py_replace old new (concat (map f s)) = concat (map (\<lambda>c. py_replace old new (f c)) s)"
  by (induction s) (simp_all add: py_replace_def)

lemma field_norm_chars: "field_norm i = concat (map norm_char (py_lower i))"
  unfolding field_norm_def
  apply (subst py_replace_def [of "CHR '' ''"])
  apply (simp only: py_replace_concat)
  apply (rule arg_cong [where f = concat])
  apply (rule map_cong [OF refl])
  apply (simp add: norm_char_def py_replace_def)
  done

lemma field_norm_slash: "field_norm ''a/b'' = ''a_b'' \<and> spec_normalize ''a/b'' = ''ab''"
  by (simp add: field_norm_def spec_normalize_def py_replace_def py_lower_def lower_char_def)

lemma field_norm_sharpe: "field_norm ''Sharpe Ratio'' = ''sharpe_ratio''"
  by (simp add: field_norm_def spec_normalize_def py_replace_def py_lower_def lower_char_def)

lemma map_of_fold_update:
  "map_of (fold (\<lambda>i d. AList.update i (g i) d) fs d) k
     = (if k \<in> set fs then Some (g k) else map_of d k)"
  by (induction fs arbitrary: d) (simp_all add: AList.update_conv')

lemma build_field_trans_get:
  "i \<in> set fs \<Longrightarrow> dict_get (build_field_trans fs) i = Inr (field_norm i)"
  by (simp add: dict_get_def build_field_trans_def map_of_fold_update)

text \<open>
  C4 as stated fails on a name with a slash: for the metric \<^verbatim>\<open>a/b\<close> the key of the
  matrix is \<^verbatim>\<open>a_b\<close>, not \<^verbatim>\<open>ab\<close>.
\<close>

theorem field_norm_slash_counterexample:
  "dict_get (build_field_trans [''a/b'']) ''a/b'' \<noteq> Inr (spec_normalize ''a/b'')"
  using build_field_trans_get [of "''a/b''" "[''a/b'']"]
  by (simp add: field_norm_slash)

text \<open>
  C4, as amended.  For every raw metric name of the summary table, the identifier that
  keys its matrix is the name in lower case, with every space and every \<^verbatim>\<open>/\<close> replaced
  by an underscore and every \<^verbatim>\<open>.\<close> removed.
\<close>

theorem field_trans_normalized:
  "i \<in> set fs \<Longrightarrow>
     dict_get (build_field_trans fs) i = Inr (concat (map norm_char (py_lower i)))"
  using build_field_trans_get [of i fs] by (simp add: field_norm_chars)

theorem field_trans_normalized_witness:
  "''Sharpe Ratio'' \<in> set [''Annual return'', ''Sharpe Ratio'']
   \<and> dict_get (build_field_trans [''Annual return'', ''Sharpe Ratio'']) ''Sharpe Ratio''
       = Inr ''sharpe_ratio''
   \<and> concat (map norm_char (py_lower ''Sharpe Ratio'')) = ''sharpe_ratio''"
  using field_trans_normalized [of "''Sharpe Ratio''" "[''Annual return'', ''Sharpe Ratio'']"]
  by (simp add: norm_char_def py_lower_def lower_char_def)

lemma get_pairs_Cons: "get_pairs (x # xs) ys = map (Pair x) ys @ get_pairs xs ys"
  by (simp add: get_pairs_def)

lemma get_pairs_length: "length (get_pairs xs ys) = length xs * length ys"
  by (induction xs) (simp_all add: get_pairs_def)

lemma get_pairs_nth:
  "i < length xs \<Longrightarrow> j < length ys \<Longrightarrow> get_pairs xs ys ! (i * length ys + j) = (xs ! i, ys ! j)"
proof (induction xs arbitrary: i)
  case Nil
  then show ?case by simp
next
  case (Cons x xs)
  show ?case
  proof (cases i)
    case 0
    with Cons.prems show ?thesis
      by (simp add: get_pairs_Cons nth_append)
  next
    case (Suc k)
    with Cons.prems have k: "k < length xs" by simp
    have "get_pairs (x # xs) ys ! (Suc k * length ys + j)
          = get_pairs xs ys ! (k * length ys + j)"
      by (simp add: get_pairs_Cons nth_append)
    with Cons.IH [OF k Cons.prems(2)] Suc show ?thesis by simp
  qed
qed

lemma get_pairs_set: "set (get_pairs xs ys) = set xs \<times> set ys"
  by (induction xs) (auto simp: get_pairs_Cons get_pairs_def)

lemma get_pairs_distinct:
  "distinct xs \<Longrightarrow> distinct ys \<Longrightarrow> distinct (get_pairs xs ys)"
proof (induction xs)
  case Nil
  then show ?case by (simp add: get_pairs_def)
next
  case (Cons x xs)
  have inj: "inj_on (Pair x) (set ys)" by (simp add: inj_on_def)
  from Cons show ?case
    by (auto simp: get_pairs_Cons get_pairs_set distinct_map inj)
qed

text \<open>
  C2.  For two progressions of lengths \<open>m\<close> and \<open>n\<close> the pair builder returns exactly
  \<open>m \<times> n\<close> pairs, the full cross product in progression-1-major order: the pair at
  position \<open>i \<times> n + j\<close> is (element \<open>i\<close> of the first, element \<open>j\<close> of the second).
  When both progressions have distinct values, no pair occurs twice.
\<close>

theorem get_pairs_cross_product:
  "length (get_pairs xs ys) = length xs * length ys
   \<and> (\<forall>i < length xs. \<forall>j < length ys.
        get_pairs xs ys ! (i * length ys + j) = (xs ! i, ys ! j))
   \<and> set (get_pairs xs ys) = set xs \<times> set ys
   \<and> (distinct xs \<and> distinct ys \<longrightarrow> distinct (get_pairs xs ys))"
  using get_pairs_length [of xs ys] get_pairs_nth [of _ xs _ ys] get_pairs_set [of xs ys]
    get_pairs_distinct [of xs ys]
  by blast

theorem get_pairs_cross_product_witness:
  "distinct [1, 2 :: int] \<and> distinct [7, 8, 9 :: int]
   \<and> get_pairs [1, 2 :: int] [7, 8, 9 :: int] = [(1, 7), (1, 8), (1, 9), (2, 7), (2, 8), (2, 9)]
   \<and> length (get_pairs [1, 2 :: int] [7, 8, 9 :: int]) = 2 * 3
   \<and> get_pairs [1, 2 :: int] [7, 8, 9 :: int] ! (1 * 3 + 2) = (2, 9)
   \<and> distinct (get_pairs [1, 2 :: int] [7, 8, 9 :: int])"
  using get_pairs_cross_product [of "[1, 2 :: int]" "[7, 8, 9 :: int]"]
  by (simp add: get_pairs_def)

section \<open>Properties of the constructor\<close>

lemma calc_keeps:
  "calc bt st a b = Inr st' \<Longrightarrow> slip st' = slip st \<and> pairs st' = pairs st"
  by (auto simp: calc_def split: sum.splits)

lemma run_pairs_prefix: "prefix (fst (run_pairs bt ps st)) ps"
proof (induction ps arbitrary: st)
  case Nil
  then show ?case by simp
next
  case (Cons p ps)
  show ?case
  proof (cases "calc bt st (fst p) (snd p)")
    case (Inl e)
    then show ?thesis by simp
  next
    case (Inr st1)
    with Cons.IH [of st1] show ?thesis
      by (cases "run_pairs bt ps st1") simp
  qed
qed

lemma run_pairs_Inr:
  "run_pairs bt ps st = (invoked, Inr st') \<Longrightarrow>
     invoked = ps \<and> slip st' = slip st \<and> pairs st' = pairs st"
proof (induction ps arbitrary: st invoked)
  case Nil
  then show ?case by simp
next
  case (Cons p ps)
  then show ?case
    by (auto split: sum.splits prod.splits dest!: calc_keeps)
qed

lemma run_pairs_ok:
  "\<forall>p \<in> set ps. \<not> isl (bt (slip st) (fst p) (snd p)) \<Longrightarrow>
     \<exists>st'. run_pairs bt ps st = (ps, Inr st')"
proof (induction ps arbitrary: st)
  case Nil
  then show ?case by simp
next
  case (Cons p ps)
  from Cons.prems obtain out where out: "bt (slip st) (fst p) (snd p) = Inr out"
    by (cases "bt (slip st) (fst p) (snd p)") auto
  then obtain st1 where st1: "calc bt st (fst p) (snd p) = Inr st1"
    by (simp add: calc_def)
  then have "slip st1 = slip st" by (simp add: calc_keeps)
  with Cons.prems have "\<forall>q \<in> set ps. \<not> isl (bt (slip st1) (fst q) (snd q))" by simp
  from Cons.IH [OF this] obtain st' where "run_pairs bt ps st1 = (ps, Inr st')" ..
  with st1 show ?case by simp
qed

lemma fst_run_grid: "fst (run_grid bt sl ps) = fst (run_pairs bt ps (new_optimizer sl ps))"
  by (simp add: run_grid_def split: prod.splits sum.splits)

lemma run_grid_prefix: "prefix (fst (run_grid bt sl ps)) ps"
  by (simp add: fst_run_grid run_pairs_prefix)

lemma run_grid_ok:
  assumes "\<forall>p \<in> set ps. \<not> isl (bt sl (fst p) (snd p))"
  shows "fst (run_grid bt sl ps) = ps"
proof -
  have "slip (new_optimizer sl ps) = sl" by (simp add: new_optimizer_def)
  with assms run_pairs_ok [of ps bt "new_optimizer sl ps"]
  obtain st' where "run_pairs bt ps (new_optimizer sl ps) = (ps, Inr st')" by auto
  then show ?thesis by (simp add: fst_run_grid)
qed

lemma init_explicit:
  "ps \<noteq> [] \<Longrightarrow> Optimizer_init bt spa spb sl (Some ps) = run_grid bt sl ps"
  by (simp add: Optimizer_init_def grid_pairs_def)

text \<open>
  C3, as amended.  When a non-empty list of pairs is given to the constructor, the
  result does not depend on the two specifications (their progressions are not
  computed), the backtest is invoked on the listed pairs in list order, once per listed
  pair, up to the first pair whose backtest raises, and on all of them when none
  raises.
\<close>

theorem explicit_pairs_used:
  "ps \<noteq> [] \<Longrightarrow>
     Optimizer_init bt spa spb sl (Some ps) = Optimizer_init bt spa' spb' sl (Some ps)
     \<and> prefix (fst (Optimizer_init bt spa spb sl (Some ps))) ps
     \<and> ((\<forall>p \<in> set ps. \<not> isl (bt sl (fst p) (snd p))) \<longrightarrow>
          fst (Optimizer_init bt spa spb sl (Some ps)) = ps)"
  by (simp add: init_explicit run_grid_prefix run_grid_ok)

lemma init_empty_pairs:
  "Optimizer_init bt spa spb sl (Some []) = Optimizer_init bt spa spb sl None"
  by (simp add: Optimizer_init_def grid_pairs_def)

lemma progression_nonempty: "progression sp = Inr s \<Longrightarrow> sp \<noteq> []"
  by auto

lemma init_generated:
  assumes "\<not> truthy_pairs ps" "progression spa = Inr sa" "progression spb = Inr sb"
    "py_iter sa = Inr xs" "py_iter sb = Inr ys"
  shows "Optimizer_init bt spa spb sl ps = run_grid bt sl (get_pairs xs ys)"
  using assms progression_nonempty [of spa sa] progression_nonempty [of spb sb]
  by (simp add: Optimizer_init_def grid_pairs_def)

lemma malformed_progression: "malformed sp \<Longrightarrow> progression sp = Inl ValueError"
  unfolding malformed_def
  apply (cases sp rule: progression.cases)
    apply simp_all
  subgoal for start step mode by (cases start) simp_all
  done

lemma init_malformed:
  assumes "\<not> truthy_pairs ps" "malformed spa \<or> malformed spb"
  shows "Optimizer_init bt spa spb sl ps =
     ([], Inl (if spa = [] \<or> spb = [] then AssertionError
               else case progression spa of Inl e \<Rightarrow> e | Inr s \<Rightarrow> ValueError))"
  using assms malformed_progression [of spa] malformed_progression [of spb]
  by (auto simp: Optimizer_init_def grid_pairs_def split: sum.splits)


lemma example_ok: "\<not> isl (example_backtest sl a b)"
  by (simp add: example_backtest_def)

theorem explicit_pairs_used_witness:
  "[(Num (PInt 1), Num (PInt 2)), (Num (PInt 3), Num (PInt 4))] \<noteq> []
   \<and> \<not> isl (example_backtest (Num (PFloat (3 / 2))) (Num (PInt 1)) (Num (PInt 2)))
   \<and> \<not> isl (example_backtest (Num (PFloat (3 / 2))) (Num (PInt 3)) (Num (PInt 4)))
   \<and> Optimizer_init example_backtest [Str ''bogus''] [] (Num (PFloat (3 / 2)))
        (Some [(Num (PInt 1), Num (PInt 2)), (Num (PInt 3), Num (PInt 4))])
     = Optimizer_init example_backtest [Num (PInt 100), Num (PFloat (5 / 4))]
        [Num (PFloat (1 / 10)), Num (PFloat (1 / 10)), Str ''lin''] (Num (PFloat (3 / 2)))
        (Some [(Num (PInt 1), Num (PInt 2)), (Num (PInt 3), Num (PInt 4))])
   \<and> fst (Optimizer_init example_backtest [Str ''bogus''] [] (Num (PFloat (3 / 2)))
        (Some [(Num (PInt 1), Num (PInt 2)), (Num (PInt 3), Num (PInt 4))]))
     = [(Num (PInt 1), Num (PInt 2)), (Num (PInt 3), Num (PInt 4))]"
proof -
  let ?ps = "[(Num (PInt 1), Num (PInt 2)), (Num (PInt 3), Num (PInt 4))]"
  have ne: "?ps \<noteq> []" by simp
  have ok: "\<forall>p \<in> set ?ps. \<not> isl (example_backtest (Num (PFloat (3 / 2))) (fst p) (snd p))"
    by (simp add: example_ok)
  from explicit_pairs_used [OF ne, where bt = example_backtest and spa = "[Str ''bogus'']"
      and spb = "[]" and sl = "Num (PFloat (3 / 2))"
      and spa' = "[Num (PInt 100), Num (PFloat (5 / 4))]"
      and spb' = "[Num (PFloat (1 / 10)), Num (PFloat (1 / 10)), Str ''lin'']"] ok
  have used: "Optimizer_init example_backtest [Str ''bogus''] [] (Num (PFloat (3 / 2))) (Some ?ps)
      = Optimizer_init example_backtest [Num (PInt 100), Num (PFloat (5 / 4))]
          [Num (PFloat (1 / 10)), Num (PFloat (1 / 10)), Str ''lin''] (Num (PFloat (3 / 2)))
          (Some ?ps)"
    and invoked: "fst (Optimizer_init example_backtest [Str ''bogus''] [] (Num (PFloat (3 / 2)))
          (Some ?ps)) = ?ps"
    by blast+
  have ok1: "\<not> isl (example_backtest (Num (PFloat (3 / 2))) (Num (PInt 1)) (Num (PInt 2)))"
    and ok2: "\<not> isl (example_backtest (Num (PFloat (3 / 2))) (Num (PInt 3)) (Num (PInt 4)))"
    by (rule example_ok)+
  from ne ok1 ok2 used invoked show ?thesis by blast
qed

text \<open>
  C3 as stated fails for the empty list: given \<^verbatim>\<open>pairs=[]\<close>, the constructor computes
  the progressions and runs the backtest on their cross product.
\<close>

theorem explicit_pairs_empty_counterexample:
  "fst (Optimizer_init example_backtest
          [Tuple [Num (PInt 1)], Num (PInt 1)] [Tuple [Num (PInt 5), Num (PInt 6)], Num (PInt 1)]
          (Num (PFloat (3 / 2))) (Some []))
   = [(Num (PInt 1), Num (PInt 5)), (Num (PInt 1), Num (PInt 6))]"
proof -
  have "Optimizer_init example_backtest
          [Tuple [Num (PInt 1)], Num (PInt 1)] [Tuple [Num (PInt 5), Num (PInt 6)], Num (PInt 1)]
          (Num (PFloat (3 / 2))) (Some [])
        = run_grid example_backtest (Num (PFloat (3 / 2)))
            (get_pairs [Num (PInt 1)] [Num (PInt 5), Num (PInt 6)])"
    by (rule init_generated [where sa = "Tuple [Num (PInt 1)]"
          and sb = "Tuple [Num (PInt 5), Num (PInt 6)]"]) simp_all
  then show ?thesis
    by (simp add: run_grid_ok example_ok get_pairs_def)
qed

lemma run_grid_example_Inr:
  "\<not> isl (snd (run_grid example_backtest sl [(Num (PInt 1), Num (PInt 2))]))"
  by (simp add: run_grid_def calc_def example_backtest_def new_optimizer_def
      extract_stats_def extract_dailys_def dict_get_def pair_key_def Let_def
      build_field_trans_def build_table_def)

text \<open>
  C6 as stated fails when a non-empty list of pairs is given: the specifications are
  not looked at, the listed pair is evaluated and the construction succeeds.
\<close>

theorem malformed_spec_counterexample:
  "malformed [Num (PInt 1), Num (PInt 2), Str ''geo'', Num (PInt 4)]
   \<and> malformed [Num (PInt 1), Num (PInt 2), Str ''bogus'']
   \<and> fst (Optimizer_init example_backtest
        [Num (PInt 1), Num (PInt 2), Str ''geo'', Num (PInt 4)]
        [Num (PInt 1), Num (PInt 2), Str ''bogus'']
        (Num (PFloat (3 / 2))) (Some [(Num (PInt 1), Num (PInt 2))]))
     = [(Num (PInt 1), Num (PInt 2))]
   \<and> \<not> isl (snd (Optimizer_init example_backtest
        [Num (PInt 1), Num (PInt 2), Str ''geo'', Num (PInt 4)]
        [Num (PInt 1), Num (PInt 2), Str ''bogus'']
        (Num (PFloat (3 / 2))) (Some [(Num (PInt 1), Num (PInt 2))])))"
  by (simp add: init_explicit run_grid_ok example_ok run_grid_example_Inr malformed_def)

text \<open>
  C6, as amended.  When the argument \<^verbatim>\<open>pairs\<close> is absent or empty and one of the two
  specifications is malformed, the construction raises before any backtest is invoked:
  the assertion error when one of the specifications is the empty tuple, otherwise the
  error of the progression of the first specification when that one raises
  (\<^verbatim>\<open>ValueError\<close> when it is malformed), and \<^verbatim>\<open>ValueError\<close> for the second
  specification otherwise.
\<close>

theorem malformed_spec_raises:
  "\<not> truthy_pairs ps \<Longrightarrow> malformed spa \<or> malformed spb \<Longrightarrow>
     Optimizer_init bt spa spb sl ps =
       ([], Inl (if spa = [] \<or> spb = [] then AssertionError
                 else case progression spa of Inl e \<Rightarrow> e | Inr s \<Rightarrow> ValueError))
     \<and> (malformed spa \<and> spa \<noteq> [] \<and> spb \<noteq> [] \<longrightarrow>
          Optimizer_init bt spa spb sl ps = ([], Inl ValueError))"
  using init_malformed [of ps spa spb bt sl] malformed_progression [of spa]
  by simp

theorem malformed_spec_raises_witness:
  "\<not> truthy_pairs None
   \<and> malformed [Num (PInt 1), Num (PInt 2), Str ''geo'', Num (PInt 4)]
   \<and> Optimizer_init example_backtest [Num (PInt 1), Num (PInt 2), Str ''geo'', Num (PInt 4)]
        [Num (PFloat (1 / 10)), Num (PFloat (1 / 10)), Str ''lin''] (Num (PFloat (3 / 2))) None
     = ([], Inl ValueError)"
proof -
  have m: "malformed [Num (PInt 1), Num (PInt 2), Str ''geo'', Num (PInt 4)]"
    by (simp add: malformed_def)
  have t: "\<not> truthy_pairs None" by simp
  from malformed_spec_raises [OF t disjI1 [OF m], of example_backtest
      "[Num (PFloat (1 / 10)), Num (PFloat (1 / 10)), Str ''lin'']" "Num (PFloat (3 / 2))"] m t
  show ?thesis by simp
qed

text \<open>
  C10.  An empty list of pairs is treated as no list at all: the constructor behaves
  as for \<^verbatim>\<open>pairs=None\<close>.  When both progressions are generated, the grid that is run
  is their cross product; the backtest is invoked on its pairs in order, on all of
  them when no backtest raises.
\<close>

theorem empty_pairs_not_bypass:
  "Optimizer_init bt spa spb sl (Some []) = Optimizer_init bt spa spb sl None
   \<and> (progression spa = Inr sa \<and> progression spb = Inr sb
        \<and> py_iter sa = Inr xs \<and> py_iter sb = Inr ys \<longrightarrow>
      Optimizer_init bt spa spb sl (Some []) = run_grid bt sl (get_pairs xs ys)
      \<and> prefix (fst (Optimizer_init bt spa spb sl (Some []))) (get_pairs xs ys)
      \<and> ((\<forall>p \<in> set (get_pairs xs ys). \<not> isl (bt sl (fst p) (snd p))) \<longrightarrow>
           fst (Optimizer_init bt spa spb sl (Some [])) = get_pairs xs ys))"
  using init_generated [of "Some []" spa sa spb sb xs ys bt sl]
  by (simp add: init_empty_pairs run_grid_prefix run_grid_ok)

theorem empty_pairs_not_bypass_witness:
  "progression [Tuple [Num (PInt 1)], Num (PInt 1)] = Inr (Tuple [Num (PInt 1)])
   \<and> progression [Tuple [Num (PInt 5), Num (PInt 6)], Num (PInt 1)]
       = Inr (Tuple [Num (PInt 5), Num (PInt 6)])
   \<and> py_iter (Tuple [Num (PInt 1)]) = Inr [Num (PInt 1)]
   \<and> py_iter (Tuple [Num (PInt 5), Num (PInt 6)]) = Inr [Num (PInt 5), Num (PInt 6)]
   \<and> \<not> isl (example_backtest (Num (PFloat (3 / 2))) (Num (PInt 1)) (Num (PInt 5)))
   \<and> \<not> isl (example_backtest (Num (PFloat (3 / 2))) (Num (PInt 1)) (Num (PInt 6)))
   \<and> fst (Optimizer_init example_backtest [Tuple [Num (PInt 1)], Num (PInt 1)]
         [Tuple [Num (PInt 5), Num (PInt 6)], Num (PInt 1)] (Num (PFloat (3 / 2))) (Some []))
     = get_pairs [Num (PInt 1)] [Num (PInt 5), Num (PInt 6)]
   \<and> get_pairs [Num (PInt 1)] [Num (PInt 5), Num (PInt 6)]
     = [(Num (PInt 1), Num (PInt 5)), (Num (PInt 1), Num (PInt 6))]"
proof -
  have p1: "progression [Tuple [Num (PInt 1)], Num (PInt 1)] = Inr (Tuple [Num (PInt 1)])"
    by simp
  have p2: "progression [Tuple [Num (PInt 5), Num (PInt 6)], Num (PInt 1)]
       = Inr (Tuple [Num (PInt 5), Num (PInt 6)])"
    by simp
  have i1: "py_iter (Tuple [Num (PInt 1)]) = Inr [Num (PInt 1)]" by simp
  have i2: "py_iter (Tuple [Num (PInt 5), Num (PInt 6)]) = Inr [Num (PInt 5), Num (PInt 6)]"
    by simp
  have ok: "\<forall>p \<in> set (get_pairs [Num (PInt 1)] [Num (PInt 5), Num (PInt 6)]).
         \<not> isl (example_backtest (Num (PFloat (3 / 2))) (fst p) (snd p))"
    by (simp add: example_ok)
  have gp: "get_pairs [Num (PInt 1)] [Num (PInt 5), Num (PInt 6)]
     = [(Num (PInt 1), Num (PInt 5)), (Num (PInt 1), Num (PInt 6))]"
    by (simp add: get_pairs_def)
  from empty_pairs_not_bypass [of example_backtest "[Tuple [Num (PInt 1)], Num (PInt 1)]"
      "[Tuple [Num (PInt 5), Num (PInt 6)], Num (PInt 1)]" "Num (PFloat (3 / 2))"
      "Tuple [Num (PInt 1)]" "Tuple [Num (PInt 5), Num (PInt 6)]"
      "[Num (PInt 1)]" "[Num (PInt 5), Num (PInt 6)]"] p1 p2 i1 i2 ok
  have invoked: "fst (Optimizer_init example_backtest [Tuple [Num (PInt 1)], Num (PInt 1)]
         [Tuple [Num (PInt 5), Num (PInt 6)], Num (PInt 1)] (Num (PFloat (3 / 2))) (Some []))
     = get_pairs [Num (PInt 1)] [Num (PInt 5), Num (PInt 6)]"
    by blast
  have ok1: "\<not> isl (example_backtest (Num (PFloat (3 / 2))) (Num (PInt 1)) (Num (PInt 5)))"
    and ok2: "\<not> isl (example_backtest (Num (PFloat (3 / 2))) (Num (PInt 1)) (Num (PInt 6)))"
    by (rule example_ok)+
  from p1 p2 i1 i2 ok1 ok2 invoked gp show ?thesis by blast
qed


section \<open>Properties of the metric matrices\<close>

lemma has_entry_loc_get: "has_entry fr index v \<Longrightarrow> loc_get fr index = Inr v"
  by (simp add: has_entry_def loc_get_def frame_cell_def)

lemma has_entry_loc_set: "has_entry (loc_set fr index v) index v"
  by (simp add: has_entry_def loc_set_def AList.update_conv')

lemma has_entry_loc_set_other:
  "index' \<noteq> index \<Longrightarrow> has_entry fr index' v' \<Longrightarrow> has_entry (loc_set fr index v) index' v'"
  by (simp add: has_entry_def loc_set_def AList.update_conv')

lemma dict_get_Inr: "dict_get d k = Inr v \<longleftrightarrow> map_of d k = Some v"
  by (simp add: dict_get_def split: option.splits)

lemma fill_fields_Cons_Inr:
  assumes "fill_fields ft index stb (field # fs) tb = Inr tb'"
  obtains v n fr where "map_of stb field = Some v" "map_of ft field = Some n"
    "map_of tb n = Some fr"
    "fill_fields ft index stb fs (AList.update n (loc_set fr index v) tb) = Inr tb'"
  using assms by (auto simp: dict_get_Inr split: sum.splits)

lemma dom_update_present:
  "map_of tb n = Some fr \<Longrightarrow> dom (map_of (AList.update n x tb)) = dom (map_of tb)"
  by (auto simp: AList.update_conv' split: if_splits)

lemma fill_fields_dom:
  "fill_fields ft index stb fs tb = Inr tb' \<Longrightarrow> dom (map_of tb') = dom (map_of tb)"
proof (induction fs arbitrary: tb)
  case Nil
  then show ?case by simp
next
  case (Cons field fs)
  from Cons.prems obtain v n fr where st: "map_of tb n = Some fr"
    "fill_fields ft index stb fs (AList.update n (loc_set fr index v) tb) = Inr tb'"
    by (rule fill_fields_Cons_Inr)
  from Cons.IH [OF st(2)] dom_update_present [OF st(1)] show ?case
    by simp
qed

lemma fill_fields_other_name:
  "fill_fields ft index stb fs tb = Inr tb' \<Longrightarrow> \<forall>g \<in> set fs. map_of ft g \<noteq> Some n \<Longrightarrow>
     map_of tb' n = map_of tb n"
proof (induction fs arbitrary: tb)
  case Nil
  then show ?case by simp
next
  case (Cons field fs)
  from Cons.prems(1) obtain v m fr where st: "map_of ft field = Some m"
    "fill_fields ft index stb fs (AList.update m (loc_set fr index v) tb) = Inr tb'"
    by (rule fill_fields_Cons_Inr)
  from Cons.prems(2) st(1) have "m \<noteq> n" by auto
  with Cons.IH [OF st(2)] Cons.prems(2) show ?case
    by (simp add: AList.update_conv')
qed

lemma fill_fields_other_index:
  "fill_fields ft index stb fs tb = Inr tb' \<Longrightarrow> index' \<noteq> index \<Longrightarrow>
     tab_entry tb n index' v' \<Longrightarrow> tab_entry tb' n index' v'"
proof (induction fs arbitrary: tb)
  case Nil
  then show ?case by simp
next
  case (Cons field fs)
  from Cons.prems(1) obtain v m fr where st: "map_of tb m = Some fr"
    "fill_fields ft index stb fs (AList.update m (loc_set fr index v) tb) = Inr tb'"
    by (rule fill_fields_Cons_Inr)
  have "tab_entry (AList.update m (loc_set fr index v) tb) n index' v'"
    using Cons.prems(2,3) st(1)
    by (auto simp: tab_entry_def AList.update_conv' has_entry_loc_set_other)
  with Cons.IH [OF st(2) Cons.prems(2)] show ?case .
qed

lemma fill_fields_sets:
  "fill_fields ft index stb fs tb = Inr tb' \<Longrightarrow> f \<in> set fs \<Longrightarrow>
   \<forall>g \<in> set fs. map_of ft g = map_of ft f \<longrightarrow> g = f \<Longrightarrow>
     \<exists>n v. map_of ft f = Some n \<and> map_of stb f = Some v \<and> tab_entry tb' n index v"
proof (induction fs arbitrary: tb)
  case Nil
  then show ?case by simp
next
  case (Cons field fs)
  from Cons.prems(1) obtain v m fr where st: "map_of stb field = Some v"
    "map_of ft field = Some m" "map_of tb m = Some fr"
    "fill_fields ft index stb fs (AList.update m (loc_set fr index v) tb) = Inr tb'"
    by (rule fill_fields_Cons_Inr)
  show ?case
  proof (cases "f \<in> set fs")
    case True
    from Cons.prems(3) have "\<forall>g \<in> set fs. map_of ft g = map_of ft f \<longrightarrow> g = f" by simp
    from Cons.IH [OF st(4) True this] show ?thesis .
  next
    case False
    with Cons.prems(2) have ff: "f = field" by simp
    have "\<forall>g \<in> set fs. map_of ft g \<noteq> Some m"
    proof
      fix g assume g: "g \<in> set fs"
      show "map_of ft g \<noteq> Some m"
      proof
        assume "map_of ft g = Some m"
        with st(2) ff have "map_of ft g = map_of ft f" by simp
        with Cons.prems(3) g have "g = f" by simp
        with g False show False by simp
      qed
    qed
    from fill_fields_other_name [OF st(4) this]
    have "map_of tb' m = Some (loc_set fr index v)"
      by (simp add: AList.update_conv')
    then have "tab_entry tb' m index v"
      by (simp add: tab_entry_def has_entry_loc_set)
    with st(1,2) ff show ?thesis by auto
  qed
qed

lemma fill_tables_dom:
  "fill_tables ft fs items tb = Inr tb' \<Longrightarrow> dom (map_of tb') = dom (map_of tb)"
proof (induction items arbitrary: tb)
  case Nil
  then show ?case by simp
next
  case (Cons it items)
  obtain index stb where it: "it = (index, stb)" by (cases it)
  from Cons.prems it obtain tb1 where st: "fill_fields ft index stb fs tb = Inr tb1"
    "fill_tables ft fs items tb1 = Inr tb'"
    by (auto split: sum.splits)
  from Cons.IH [OF st(2)] fill_fields_dom [OF st(1)] show ?case by simp
qed

lemma fill_tables_other_index:
  "fill_tables ft fs items tb = Inr tb' \<Longrightarrow> index' \<notin> fst ` set items \<Longrightarrow>
     tab_entry tb n index' v' \<Longrightarrow> tab_entry tb' n index' v'"
proof (induction items arbitrary: tb)
  case Nil
  then show ?case by simp
next
  case (Cons it items)
  obtain index stb where it: "it = (index, stb)" by (cases it)
  from Cons.prems(1) it obtain tb1 where st: "fill_fields ft index stb fs tb = Inr tb1"
    "fill_tables ft fs items tb1 = Inr tb'"
    by (auto split: sum.splits)
  from Cons.prems(2) it have ne: "index' \<noteq> index" and rest: "index' \<notin> fst ` set items"
    by auto
  from fill_fields_other_index [OF st(1) ne Cons.prems(3)]
  have "tab_entry tb1 n index' v'" .
  from Cons.IH [OF st(2) rest this] show ?case .
qed

lemma fill_tables_sets:
  "fill_tables ft fs items tb = Inr tb' \<Longrightarrow> distinct (map fst items) \<Longrightarrow>
   (index, stb) \<in> set items \<Longrightarrow> f \<in> set fs \<Longrightarrow>
   \<forall>g \<in> set fs. map_of ft g = map_of ft f \<longrightarrow> g = f \<Longrightarrow>
     \<exists>n v. map_of ft f = Some n \<and> map_of stb f = Some v \<and> tab_entry tb' n index v"
proof (induction items arbitrary: tb)
  case Nil
  then show ?case by simp
next
  case (Cons it items)
  obtain i0 s0 where it: "it = (i0, s0)" by (cases it)
  from Cons.prems(1) it obtain tb1 where st: "fill_fields ft i0 s0 fs tb = Inr tb1"
    "fill_tables ft fs items tb1 = Inr tb'"
    by (auto split: sum.splits)
  from Cons.prems(2) it have d: "distinct (map fst items)" and notin: "i0 \<notin> fst ` set items"
    by auto
  show ?case
  proof (cases "(index, stb) = (i0, s0)")
    case True
    from fill_fields_sets [OF st(1) Cons.prems(4,5)] obtain n v where
      nv: "map_of ft f = Some n" "map_of s0 f = Some v" "tab_entry tb1 n i0 v" by blast
    from fill_tables_other_index [OF st(2) notin nv(3)] have "tab_entry tb' n i0 v" .
    with nv True show ?thesis by auto
  next
    case False
    with Cons.prems(3) it have "(index, stb) \<in> set items" by auto
    from Cons.IH [OF st(2) d this Cons.prems(4,5)] show ?thesis .
  qed
qed

lemma calc_raw_stats:
  assumes "calc bt st a b = Inr st'"
  shows "\<exists>out :: perf_out.
     raw_stats st' = AList.update (pair_key (a, b)) (stats out) (raw_stats st)"
proof (cases "bt (slip st) a b")
  case (Inl e)
  with assms show ?thesis by (simp add: calc_def)
next
  case (Inr out)
  with assms have "raw_stats st' = AList.update (pair_key (a, b)) (stats out) (raw_stats st)"
    by (auto simp: calc_def)
  then show ?thesis ..
qed

lemma run_pairs_raw_stats:
  "run_pairs bt ps st = (invoked, Inr st') \<Longrightarrow> distinct (map fst (raw_stats st)) \<Longrightarrow>
     distinct (map fst (raw_stats st'))
     \<and> fst ` set (raw_stats st') = pair_key ` set ps \<union> fst ` set (raw_stats st)"
proof (induction ps arbitrary: st invoked)
  case Nil
  then show ?case by simp
next
  case (Cons p ps)
  from Cons.prems(1) obtain st1 inv1 where st: "calc bt st (fst p) (snd p) = Inr st1"
    "run_pairs bt ps st1 = (inv1, Inr st')"
    by (auto split: sum.splits prod.splits)
  from calc_raw_stats [OF st(1)] obtain out :: perf_out where
    rs: "raw_stats st1 = AList.update (pair_key p) (stats out) (raw_stats st)" by auto
  with Cons.prems(2) have d1: "distinct (map fst (raw_stats st1))"
    by (simp add: AList.distinct_update)
  from rs have k1: "fst ` set (raw_stats st1) = insert (pair_key p) (fst ` set (raw_stats st))"
    by (simp add: AList.dom_update)
  from Cons.IH [OF st(2) d1] k1 show ?case by auto
qed

lemma extract_stats_Inr:
  assumes "extract_stats st = Inr st'"
  obtains ref tb where "pairs st \<noteq> []"
    "map_of (raw_stats st) (pair_key (last (pairs st))) = Some ref"
    "fill_tables (build_field_trans (map fst ref)) (map fst ref) (raw_stats st)
       (build_table (map snd (build_field_trans (map fst ref)))) = Inr tb"
    "st' = st\<lparr>raw_fields := map fst ref, field_trans := build_field_trans (map fst ref),
              norm_fields := map snd (build_field_trans (map fst ref)), table := tb\<rparr>"
  using assms
  by (auto simp: extract_stats_def Let_def dict_get_Inr split: if_splits sum.splits)

lemma extract_dailys_Inr:
  assumes "extract_dailys st = Inr st'"
  shows "table st' = table st \<and> raw_stats st' = raw_stats st \<and> pairs st' = pairs st
     \<and> raw_fields st' = raw_fields st"
  using assms by (auto simp: extract_dailys_def split: sum.splits prod.splits)

lemma map_of_build_field_trans:
  "map_of (build_field_trans fs) f = (if f \<in> set fs then Some (field_norm f) else None)"
  by (simp add: build_field_trans_def map_of_fold_update)

lemma map_of_build_table:
  "map_of (build_table fl) n = (if n \<in> set fl then Some empty_frame else None)"
  by (simp add: build_table_def map_of_fold_update)

lemma field_norm_in_values:
  "f \<in> set fs \<Longrightarrow> field_norm f \<in> set (map snd (build_field_trans fs))"
proof -
  assume "f \<in> set fs"
  then have "map_of (build_field_trans fs) f = Some (field_norm f)"
    by (simp add: map_of_build_field_trans)
  then have "(f, field_norm f) \<in> set (build_field_trans fs)" by (rule map_of_SomeD)
  then show ?thesis by force
qed

lemma run_grid_Inr:
  assumes "run_grid bt sl ps = (invoked, Inr obj)"
  obtains st st1 where "run_pairs bt ps (new_optimizer sl ps) = (invoked, Inr st)"
    "extract_stats st = Inr st1" "extract_dailys st1 = Inr obj"
  using assms by (auto simp: run_grid_def split: prod.splits sum.splits)

lemma init_Inr:
  assumes "Optimizer_init bt spa spb sl ps = (invoked, Inr obj)"
  obtains gp where "run_grid bt sl gp = (invoked, Inr obj)"
  using assms by (auto simp: Optimizer_init_def split: if_splits sum.splits)

lemma run_grid_tables:
  assumes rg: "run_grid bt sl ps = (invoked, Inr obj)"
  shows "pairs obj = invoked \<and> invoked \<noteq> []
     \<and> (\<exists>ref. dict_get (raw_stats obj) (pair_key (last invoked)) = Inr ref
           \<and> raw_fields obj = map fst ref)
     \<and> (\<forall>g \<in> set (raw_fields obj). \<not> isl (dict_get (table obj) (field_norm g)))
     \<and> (p \<in> set invoked \<and> f \<in> set (raw_fields obj)
          \<and> inj_on field_norm (set (raw_fields obj)) \<longrightarrow>
        (\<exists>fr stb v. dict_get (table obj) (field_norm f) = Inr fr
           \<and> dict_get (raw_stats obj) (pair_key p) = Inr stb
           \<and> dict_get stb f = Inr v
           \<and> has_entry fr (pair_key p) v \<and> loc_get fr (pair_key p) = Inr v))"
proof -
  from rg obtain st st1 where rp: "run_pairs bt ps (new_optimizer sl ps) = (invoked, Inr st)"
    and es: "extract_stats st = Inr st1" and ed: "extract_dailys st1 = Inr obj"
    by (rule run_grid_Inr)
  from run_pairs_Inr [OF rp] have inv: "invoked = ps" and pst: "pairs st = ps"
    by (simp_all add: new_optimizer_def)
  have d0: "distinct (map fst (raw_stats (new_optimizer sl ps)))"
    by (simp add: new_optimizer_def)
  from run_pairs_raw_stats [OF rp d0]
  have dst: "distinct (map fst (raw_stats st))"
    and keys: "fst ` set (raw_stats st) = pair_key ` set ps"
    by (simp_all add: new_optimizer_def)
  from es obtain ref tb where ne: "pairs st \<noteq> []"
    and ref: "map_of (raw_stats st) (pair_key (last (pairs st))) = Some ref"
    and ft: "fill_tables (build_field_trans (map fst ref)) (map fst ref) (raw_stats st)
       (build_table (map snd (build_field_trans (map fst ref)))) = Inr tb"
    and st1: "st1 = st\<lparr>raw_fields := map fst ref,
              field_trans := build_field_trans (map fst ref),
              norm_fields := map snd (build_field_trans (map fst ref)), table := tb\<rparr>"
    by (rule extract_stats_Inr)
  from extract_dailys_Inr [OF ed] st1
  have obj: "table obj = tb" "raw_stats obj = raw_stats st" "pairs obj = pairs st"
    "raw_fields obj = map fst ref"
    by simp_all
  have c1: "pairs obj = invoked" using obj pst inv by simp
  have c2: "invoked \<noteq> []" using ne pst inv by simp
  have c3: "\<exists>ref. dict_get (raw_stats obj) (pair_key (last invoked)) = Inr ref
           \<and> raw_fields obj = map fst ref"
    using ref obj pst inv by (auto simp: dict_get_Inr)
  have c4: "\<forall>g \<in> set (raw_fields obj). \<not> isl (dict_get (table obj) (field_norm g))"
  proof
    fix g assume "g \<in> set (raw_fields obj)"
    with obj have "g \<in> set (map fst ref)" by simp
    from field_norm_in_values [OF this]
    have "field_norm g \<in> dom (map_of (build_table (map snd (build_field_trans (map fst ref)))))"
      by (simp add: map_of_build_table dom_def)
    with fill_tables_dom [OF ft] have "field_norm g \<in> dom (map_of tb)" by simp
    with obj show "\<not> isl (dict_get (table obj) (field_norm g))"
      by (auto simp: dict_get_def)
  qed
  have c5: "\<exists>fr stb v. dict_get (table obj) (field_norm f) = Inr fr
           \<and> dict_get (raw_stats obj) (pair_key p) = Inr stb
           \<and> dict_get stb f = Inr v
           \<and> has_entry fr (pair_key p) v \<and> loc_get fr (pair_key p) = Inr v"
    if p: "p \<in> set invoked" and f: "f \<in> set (raw_fields obj)"
      and inj: "inj_on field_norm (set (raw_fields obj))"
  proof -
    from p inv keys have "pair_key p \<in> fst ` set (raw_stats st)" by simp
    then obtain stb where mem: "(pair_key p, stb) \<in> set (raw_stats st)" by force
    with dst have look: "map_of (raw_stats st) (pair_key p) = Some stb" by simp
    from f obj have f': "f \<in> set (map fst ref)" by simp
    have cond: "\<forall>g \<in> set (map fst ref).
        map_of (build_field_trans (map fst ref)) g = map_of (build_field_trans (map fst ref)) f
          \<longrightarrow> g = f"
    proof (intro ballI impI)
      fix g assume g: "g \<in> set (map fst ref)"
        and "map_of (build_field_trans (map fst ref)) g
             = map_of (build_field_trans (map fst ref)) f"
      with f' have "field_norm g = field_norm f" by (simp add: map_of_build_field_trans)
      with inj g f' obj show "g = f" by (auto dest: inj_onD)
    qed
    from fill_tables_sets [OF ft dst mem f' cond] f' obtain v where
      v: "map_of stb f = Some v" "tab_entry tb (field_norm f) (pair_key p) v"
      by (auto simp: map_of_build_field_trans)
    from v(2) obtain fr where fr: "map_of tb (field_norm f) = Some fr"
      "has_entry fr (pair_key p) v"
      by (auto simp: tab_entry_def split: option.splits)
    with v(1) look obj has_entry_loc_get [OF fr(2)] show ?thesis
      by (auto simp: dict_get_Inr)
  qed
  from c1 c2 c3 c4 c5 show ?thesis by blast
qed

lemmas eval_defs = Optimizer_init_def grid_pairs_def run_grid_def calc_def new_optimizer_def
      extract_stats_def extract_dailys_def dict_get_def pair_key_def Let_def
      build_field_trans_def build_table_def loc_set_def empty_frame_def DataFrame_def
      union_index_def series_at_def field_norm_def py_replace_def py_lower_def lower_char_def
      get_pairs_def

lemma example_run_value:
  "fst example_run
     = [(Num (PInt 1), Num (PInt 1)), (Num (PInt 1), Num (PInt 5)),
        (Num (PInt 2), Num (PInt 1)), (Num (PInt 2), Num (PInt 5))]
   \<and> map_sum id (\<lambda>obj. (pairs obj, raw_fields obj, raw_stats obj, table obj, returns obj))
        (snd example_run)
     = Inr ([(Num (PInt 1), Num (PInt 1)), (Num (PInt 1), Num (PInt 5)),
             (Num (PInt 2), Num (PInt 1)), (Num (PInt 2), Num (PInt 5))],
            [''Annual return'', ''Sharpe ratio''],
            [((Num (PFloat 1), Num (PFloat 1)),
              [(''Annual return'', Some 1), (''Sharpe ratio'', Some 2)]),
             ((Num (PFloat 1), Num (PFloat 5)),
              [(''Annual return'', Some 5), (''Sharpe ratio'', Some 6)]),
             ((Num (PFloat 2), Num (PFloat 1)),
              [(''Annual return'', Some 2), (''Sharpe ratio'', Some 3)]),
             ((Num (PFloat 2), Num (PFloat 5)),
              [(''Annual return'', Some 10), (''Sharpe ratio'', Some 7)])],
            [(''annual_return'',
              \<lparr>frows = [Num (PFloat 1), Num (PFloat 2)],
                 fcols = [Num (PFloat 1), Num (PFloat 5)],
                 fcells =
                   [((Num (PFloat 1), Num (PFloat 1)), Some 1),
                    ((Num (PFloat 1), Num (PFloat 5)), Some 5),
                    ((Num (PFloat 2), Num (PFloat 1)), Some 2),
                    ((Num (PFloat 2), Num (PFloat 5)), Some 10)]\<rparr>),
             (''sharpe_ratio'',
              \<lparr>frows = [Num (PFloat 1), Num (PFloat 2)],
                 fcols = [Num (PFloat 1), Num (PFloat 5)],
                 fcells =
                   [((Num (PFloat 1), Num (PFloat 1)), Some 2),
                    ((Num (PFloat 1), Num (PFloat 5)), Some 6),
                    ((Num (PFloat 2), Num (PFloat 1)), Some 3),
                    ((Num (PFloat 2), Num (PFloat 5)), Some 7)]\<rparr>)],
            \<lparr>windex = [0, 1, 2],
               wcols =
                 [((Num (PFloat 1), Num (PFloat 1)),
                   [Some 0, Some (1 / 10), Some (- (1 / 20))]),
                  ((Num (PFloat 1), Num (PFloat 5)),
                   [Some 0, Some (1 / 10), Some (- (1 / 4))]),
                  ((Num (PFloat 2), Num (PFloat 1)),
                   [Some 0, Some (1 / 5), Some (- (1 / 20))]),
                  ((Num (PFloat 2), Num (PFloat 5)),
                   [Some 0, Some (1 / 5), Some (- (1 / 4))])]\<rparr>)"
  by (simp add: example_run_def eval_defs example_backtest_def)

lemma example_run_Inr: "snd example_run = Inr example_obj"
  using example_run_value unfolding example_obj_def
  by (cases "snd example_run") simp_all

lemma example_obj_fields:
  "pairs example_obj
     = [(Num (PInt 1), Num (PInt 1)), (Num (PInt 1), Num (PInt 5)),
        (Num (PInt 2), Num (PInt 1)), (Num (PInt 2), Num (PInt 5))]"
  "raw_fields example_obj = [''Annual return'', ''Sharpe ratio'']"
  using example_run_value by (simp_all add: example_run_Inr)

lemma clash_run_value:
  "map_sum id (\<lambda>obj. (raw_stats obj, table obj))
     (snd (Optimizer_init clash_backtest [] [] (Num (PFloat (3 / 2)))
            (Some [(Num (PInt 1), Num (PInt 2))])))
   = Inr ([((Num (PFloat 1), Num (PFloat 2)), [(''A'', Some 1), (''a'', Some 2)])],
          [(''a'', \<lparr>frows = [Num (PFloat 1)], fcols = [Num (PFloat 2)],
                    fcells = [((Num (PFloat 1), Num (PFloat 2)), Some 2)]\<rparr>)])"
  by (simp add: eval_defs clash_backtest_def)

text \<open>
  C5 as stated fails when two metric names of the reference table have the same
  normalised name: with the metrics \<^verbatim>\<open>A\<close> (value 1) and \<^verbatim>\<open>a\<close> (value 2) there is one
  matrix, \<^verbatim>\<open>a\<close>, and at the pair it holds 2, which is not the pair's value for \<^verbatim>\<open>A\<close>.
\<close>

theorem metric_clash_counterexample:
  "map_sum id (\<lambda>obj. (raw_stats obj, dict_get (table obj) (field_norm ''A'')))
     (snd (Optimizer_init clash_backtest [] [] (Num (PFloat (3 / 2)))
            (Some [(Num (PInt 1), Num (PInt 2))])))
   = Inr ([((Num (PFloat 1), Num (PFloat 2)), [(''A'', Some 1), (''a'', Some 2)])],
          Inr \<lparr>frows = [Num (PFloat 1)], fcols = [Num (PFloat 2)],
                 fcells = [((Num (PFloat 1), Num (PFloat 2)), Some 2)]\<rparr>)"
proof (cases "snd (Optimizer_init clash_backtest [] [] (Num (PFloat (3 / 2)))
            (Some [(Num (PInt 1), Num (PInt 2))]))")
  case (Inl e)
  with clash_run_value show ?thesis by simp
next
  case (Inr obj)
  with clash_run_value show ?thesis
    by (simp add: dict_get_def field_norm_def py_replace_def py_lower_def lower_char_def)
qed

text \<open>
  C5, as amended.  When the construction succeeds, the grid is not empty, the metric
  names are those of the summary table stored for the last pair, and a matrix exists
  under the normalised name of each of them.  When no two of these names have the same
  normalised name, then for every pair that was evaluated and every such metric, the
  matrix of the metric has an entry at the pair (row \<open>p_1\<close>, column \<open>p_2\<close>), and it
  holds the value of the metric in the summary table stored for that pair.
\<close>

theorem metric_matrices_filled:
  assumes "Optimizer_init bt spa spb sl ps = (invoked, Inr obj)"
  shows "pairs obj = invoked \<and> invoked \<noteq> []
     \<and> (\<exists>ref. dict_get (raw_stats obj) (pair_key (last invoked)) = Inr ref
           \<and> raw_fields obj = map fst ref)
     \<and> (\<forall>g \<in> set (raw_fields obj). \<not> isl (dict_get (table obj) (field_norm g)))
     \<and> (p \<in> set invoked \<and> f \<in> set (raw_fields obj)
          \<and> inj_on field_norm (set (raw_fields obj)) \<longrightarrow>
        (\<exists>fr stb v. dict_get (table obj) (field_norm f) = Inr fr
           \<and> dict_get (raw_stats obj) (pair_key p) = Inr stb
           \<and> dict_get stb f = Inr v
           \<and> has_entry fr (pair_key p) v \<and> loc_get fr (pair_key p) = Inr v))"
proof -
  from assms obtain gp where "run_grid bt sl gp = (invoked, Inr obj)"
    by (rule init_Inr)
  then show ?thesis by (rule run_grid_tables)
qed

theorem metric_matrices_filled_witness:
  "Optimizer_init example_backtest
       [Tuple [Num (PInt 1), Num (PInt 2)], Num (PInt 1)]
       [Tuple [Num (PInt 1), Num (PInt 5)], Num (PInt 1)]
       (Num (PFloat (3 / 2))) None = (fst example_run, Inr example_obj)
   \<and> (Num (PInt 2), Num (PInt 5)) \<in> set (fst example_run)
   \<and> ''Annual return'' \<in> set (raw_fields example_obj)
   \<and> inj_on field_norm (set (raw_fields example_obj))
   \<and> pairs example_obj = fst example_run
   \<and> (\<exists>fr stb v. dict_get (table example_obj) (field_norm ''Annual return'') = Inr fr
           \<and> dict_get (raw_stats example_obj) (pair_key (Num (PInt 2), Num (PInt 5))) = Inr stb
           \<and> dict_get stb ''Annual return'' = Inr v
           \<and> has_entry fr (pair_key (Num (PInt 2), Num (PInt 5))) v
           \<and> loc_get fr (pair_key (Num (PInt 2), Num (PInt 5))) = Inr v)"
proof -
  have run: "Optimizer_init example_backtest
       [Tuple [Num (PInt 1), Num (PInt 2)], Num (PInt 1)]
       [Tuple [Num (PInt 1), Num (PInt 5)], Num (PInt 1)]
       (Num (PFloat (3 / 2))) None = (fst example_run, Inr example_obj)"
    using example_run_Inr by (simp add: example_run_def [symmetric] prod_eq_iff)
  have p: "(Num (PInt 2), Num (PInt 5)) \<in> set (fst example_run)"
    using example_run_value by simp
  have f: "''Annual return'' \<in> set (raw_fields example_obj)"
    by (simp add: example_obj_fields)
  have inj: "inj_on field_norm (set (raw_fields example_obj))"
    by (simp add: example_obj_fields field_norm_def py_replace_def py_lower_def lower_char_def)
  from metric_matrices_filled [OF run, of "(Num (PInt 2), Num (PInt 5))" "''Annual return''"]
    p f inj run
  show ?thesis by blast
qed


section \<open>Properties of the analytics\<close>

lemma present_all: "\<forall>x \<in> set xs. x \<noteq> None \<Longrightarrow> present xs = map the xs"
  by (induction xs) (auto simp: present_def)

lemma present_map: "\<forall>x \<in> set xs. f x \<noteq> None \<Longrightarrow> present (map f xs) = map (\<lambda>x. the (f x)) xs"
  by (simp add: present_all comp_def)

lemma mean_skipna_all:
  "xs \<noteq> [] \<Longrightarrow> \<forall>x \<in> set xs. f x \<noteq> None \<Longrightarrow>
     mean_skipna (map f xs) = Some (mean (map (\<lambda>x. the (f x)) xs))"
  by (simp add: mean_skipna_def present_map mean_def)

lemma full_grid_cells:
  "full_grid fr \<Longrightarrow> r \<in> set (frows fr) \<Longrightarrow> c \<in> set (fcols fr) \<Longrightarrow> frame_cell fr r c \<noteq> None"
  by (auto simp: full_grid_def list_all_iff)

lemma frame_mean_full:
  assumes "full_grid fr"
  shows "series_mean (frame_mean fr)
     = Some (mean (map (\<lambda>c. mean (map (\<lambda>r. cell_val fr r c) (frows fr))) (fcols fr)))"
proof -
  from assms have rows: "frows fr \<noteq> []" and cols: "fcols fr \<noteq> []"
    by (simp_all add: full_grid_def)
  have col: "mean_skipna (map (\<lambda>r. frame_cell fr r c) (frows fr))
      = Some (mean (map (\<lambda>r. cell_val fr r c) (frows fr)))" if "c \<in> set (fcols fr)" for c
    using mean_skipna_all [OF rows, of "\<lambda>r. frame_cell fr r c"] full_grid_cells [OF assms _ that]
    by (simp add: cell_val_def)
  have "map snd (frame_mean fr)
      = map (\<lambda>c. Some (mean (map (\<lambda>r. cell_val fr r c) (frows fr)))) (fcols fr)"
    by (simp add: frame_mean_def comp_def col)
  with mean_skipna_all [OF cols,
      of "\<lambda>c. Some (mean (map (\<lambda>r. cell_val fr r c) (frows fr)))"]
  show ?thesis by (simp add: series_mean_def)
qed

lemma stack_full:
  assumes "full_grid fr"
  shows "present (map snd (stack fr))
     = concat (map (\<lambda>r. map (\<lambda>c. cell_val fr r c) (fcols fr)) (frows fr))"
proof -
  let ?all = "concat (map (\<lambda>r. map (\<lambda>c. ((r, c), frame_cell fr r c)) (fcols fr)) (frows fr))"
  have nn: "\<forall>e \<in> set ?all. snd e \<noteq> None"
    using full_grid_cells [OF assms] by auto
  then have "stack fr = ?all" by (simp add: stack_def)
  moreover from nn have "present (map snd ?all) = map (\<lambda>e. the (snd e)) ?all"
    by (rule present_map)
  moreover have "map (\<lambda>e. the (snd e)) ?all
      = concat (map (\<lambda>r. map (\<lambda>c. cell_val fr r c) (fcols fr)) (frows fr))"
    by (simp add: map_concat comp_def cell_val_def)
  ultimately show ?thesis by simp
qed

lemma sort_eq_Nil: "sort xs = [] \<longleftrightarrow> xs = []"
  by (metis length_0_conv length_sort)

lemma stack_median_full:
  assumes "full_grid fr"
  shows "series_median (stack fr)
     = Some (median (concat (map (\<lambda>r. map (\<lambda>c. cell_val fr r c) (fcols fr)) (frows fr))))"
proof -
  let ?vals = "concat (map (\<lambda>r. map (\<lambda>c. cell_val fr r c) (fcols fr)) (frows fr))"
  from assms have "hd (frows fr) \<in> set (frows fr)" "hd (fcols fr) \<in> set (fcols fr)"
    by (simp_all add: full_grid_def)
  then have "cell_val fr (hd (frows fr)) (hd (fcols fr)) \<in> set ?vals" by auto
  then have "?vals \<noteq> []" by auto
  then show ?thesis
    by (simp add: series_median_def median_skipna_def stack_full [OF assms] median_def Let_def
        sort_eq_Nil)
qed

lemma example_table:
  "dict_get (table example_obj) ''annual_return''
     = Inr \<lparr>frows = [Num (PFloat 1), Num (PFloat 2)],
            fcols = [Num (PFloat 1), Num (PFloat 5)],
            fcells =
              [((Num (PFloat 1), Num (PFloat 1)), Some 1),
               ((Num (PFloat 1), Num (PFloat 5)), Some 5),
               ((Num (PFloat 2), Num (PFloat 1)), Some 2),
               ((Num (PFloat 2), Num (PFloat 5)), Some 10)]\<rparr>"
  using example_run_value by (simp add: example_run_Inr dict_get_def)

lemma example_return_mean: "return_mean example_obj = Inr (Some (9 / 2))"
  by (simp add: return_mean_def example_table series_mean_def frame_mean_def mean_skipna_def
      present_def frame_cell_def)

lemma example_return_median: "return_median example_obj = Inr (Some (7 / 2))"
  by (simp add: return_median_def example_table series_median_def stack_def
      median_skipna_def present_def frame_cell_def)

text \<open>
  C8.  On a matrix of annual returns all of whose cells hold a number,
  \<^verbatim>\<open>return_mean\<close> is the mean of the means taken along one axis (the mean of every
  column over the rows, then the mean of these), and \<^verbatim>\<open>return_median\<close> is the median of
  all cells flattened into one collection.  The two are not equal in general: for the
  matrix with rows \<open>(1, 5)\<close> and \<open>(2, 10)\<close> the mean is \<open>9/2\<close> and the median \<open>7/2\<close>.
\<close>

theorem return_mean_vs_median:
  "(dict_get (table st) ''annual_return'' = Inr fr \<and> full_grid fr \<longrightarrow>
      return_mean st
        = Inr (Some (mean (map (\<lambda>c. mean (map (\<lambda>r. cell_val fr r c) (frows fr))) (fcols fr))))
      \<and> return_median st
        = Inr (Some (median
            (concat (map (\<lambda>r. map (\<lambda>c. cell_val fr r c) (fcols fr)) (frows fr))))))
   \<and> return_mean example_obj = Inr (Some (9 / 2))
   \<and> return_median example_obj = Inr (Some (7 / 2))
   \<and> return_mean example_obj \<noteq> return_median example_obj"
  by (simp add: return_mean_def return_median_def frame_mean_full stack_median_full
      example_return_mean [unfolded return_mean_def]
      example_return_median [unfolded return_median_def])

theorem return_mean_vs_median_witness:
  "dict_get (table example_obj) ''annual_return'' = Inr example_frame
   \<and> full_grid example_frame
   \<and> mean (map (\<lambda>c. mean (map (\<lambda>r. cell_val example_frame r c) (frows example_frame)))
        (fcols example_frame)) = 9 / 2
   \<and> median (concat (map (\<lambda>r. map (\<lambda>c. cell_val example_frame r c) (fcols example_frame))
        (frows example_frame))) = 7 / 2
   \<and> return_mean example_obj = Inr (Some (9 / 2))
   \<and> return_median example_obj = Inr (Some (7 / 2))"
proof -
  have t: "dict_get (table example_obj) ''annual_return'' = Inr example_frame"
    by (simp add: example_table example_frame_def)
  have g: "full_grid example_frame"
    by (simp add: full_grid_def example_frame_def frame_cell_def)
  have m: "mean (map (\<lambda>c. mean (map (\<lambda>r. cell_val example_frame r c) (frows example_frame)))
        (fcols example_frame)) = 9 / 2"
    by (simp add: mean_def cell_val_def frame_cell_def example_frame_def)
  have d: "median (concat (map (\<lambda>r. map (\<lambda>c. cell_val example_frame r c) (fcols example_frame))
        (frows example_frame))) = 7 / 2"
    by (simp add: median_def cell_val_def frame_cell_def example_frame_def)
  from return_mean_vs_median [of example_obj example_frame] t g m d
  show ?thesis by simp
qed

lemma series_add1_snd: "map snd (series_add1 s) = map (map_option (\<lambda>x. x + 1)) (map snd s)"
  by (induction s) (auto simp: series_add1_def)

lemma series_add1_fst: "map fst (series_add1 s) = map fst s"
  by (induction s) (auto simp: series_add1_def)

lemma cumprod_from_fst: "map fst (cumprod_from acc s) = map fst s"
  by (induction acc s rule: cumprod_from.induct) simp_all

lemma cumprod_from_snd:
  "map snd s = map Some ys \<Longrightarrow>
     map snd (cumprod_from acc s)
       = map (\<lambda>k. Some (acc * prod_list (take (Suc k) ys))) [0..<length ys]"
proof (induction s arbitrary: acc ys)
  case Nil
  then show ?case by simp
next
  case (Cons e s)
  obtain t v where e: "e = (t, v)" by (cases e)
  from Cons.prems e obtain y ys' where ys: "ys = y # ys'" "v = Some y" "map snd s = map Some ys'"
    by (cases ys) auto
  from Cons.IH [OF ys(3), of "acc * y"]
  have "map snd (cumprod_from (acc * y) s)
      = map (\<lambda>k. Some (acc * y * prod_list (take (Suc k) ys'))) [0..<length ys']" .
  with e ys show ?case
    by (simp add: map_upt_Suc mult.assoc del: upt_Suc)
qed

lemma mean_axis1_nth:
  assumes "i < length (windex w)" "wcols w \<noteq> []" "\<forall>col \<in> set (wcols w). snd col ! i \<noteq> None"
  shows "mean_axis1 w ! i = (windex w ! i, Some (mean (map (\<lambda>col. the (snd col ! i)) (wcols w))))"
  using assms mean_skipna_all [of "wcols w" "\<lambda>col. snd col ! i"]
  by (simp add: mean_axis1_def wide_row_def)

lemma combine_paths_snd:
  assumes "map snd (combine st) = map Some ys"
  shows "map snd (combine_paths st)
     = map (\<lambda>k. Some (prod_list (map (\<lambda>x. x + 1) (take (Suc k) ys)))) [0..<length ys]"
proof -
  from assms have "map snd (series_add1 (combine st)) = map Some (map (\<lambda>x. x + 1) ys)"
    by (simp add: series_add1_snd comp_def)
  from cumprod_from_snd [OF this, of 1] show ?thesis
    by (simp add: combine_paths_def cumprod_def take_map)
qed

lemma combine_run_value:
  "map_sum id returns (snd combine_run)
     = Inr \<lparr>windex = [0, 1, 2],
            wcols = [((Num (PFloat 0), Num (PFloat 2)), [Some 0, Some 0, Some (- (1 / 10))]),
                     ((Num (PFloat 2), Num (PFloat 0)), [Some 0, Some (1 / 5), Some 0])]\<rparr>"
  by (simp add: combine_run_def eval_defs example_backtest_def)

lemma combine_obj_returns:
  "returns combine_obj
     = \<lparr>windex = [0, 1, 2],
        wcols = [((Num (PFloat 0), Num (PFloat 2)), [Some 0, Some 0, Some (- (1 / 10))]),
                 ((Num (PFloat 2), Num (PFloat 0)), [Some 0, Some (1 / 5), Some 0])]\<rparr>"
  using combine_run_value unfolding combine_obj_def
  by (cases "snd combine_run") simp_all

lemma combine_obj_combine:
  "combine combine_obj = [(0, Some 0), (1, Some (1 / 10)), (2, Some (- (1 / 20)))]"
  by (simp add: combine_def combine_obj_returns mean_axis1_def wide_row_def mean_skipna_def
      present_def upt_rec)

lemma calc_raw_dailys:
  assumes "calc bt st a b = Inr st'"
  shows "\<exists>out :: perf_out.
     raw_dailys st' = AList.update (pair_key (a, b)) (daily out) (raw_dailys st)"
proof (cases "bt (slip st) a b")
  case (Inl e)
  with assms show ?thesis by (simp add: calc_def)
next
  case (Inr out)
  with assms have "raw_dailys st' = AList.update (pair_key (a, b)) (daily out) (raw_dailys st)"
    by (auto simp: calc_def)
  then show ?thesis ..
qed

lemma run_pairs_raw_dailys:
  "run_pairs bt ps st = (invoked, Inr st') \<Longrightarrow> distinct (map fst (raw_dailys st)) \<Longrightarrow>
     distinct (map fst (raw_dailys st'))
     \<and> fst ` set (raw_dailys st') = pair_key ` set ps \<union> fst ` set (raw_dailys st)"
proof (induction ps arbitrary: st invoked)
  case Nil
  then show ?case by simp
next
  case (Cons p ps)
  from Cons.prems(1) obtain st1 inv1 where st: "calc bt st (fst p) (snd p) = Inr st1"
    "run_pairs bt ps st1 = (inv1, Inr st')"
    by (auto split: sum.splits prod.splits)
  from calc_raw_dailys [OF st(1)] obtain out :: perf_out where
    rs: "raw_dailys st1 = AList.update (pair_key p) (daily out) (raw_dailys st)" by auto
  with Cons.prems(2) have d1: "distinct (map fst (raw_dailys st1))"
    by (simp add: AList.distinct_update)
  from rs have k1: "fst ` set (raw_dailys st1) = insert (pair_key p) (fst ` set (raw_dailys st))"
    by (simp add: AList.dom_update)
  from Cons.IH [OF st(2) d1] k1 show ?case by auto
qed

lemma update_fresh: "k \<notin> fst ` set al \<Longrightarrow> AList.update k v al = al @ [(k, v)]"
  by (induction al) auto

lemma collect_dailys_returns:
  "collect_dailys items (lr, r, p) = Inr (lr', r', p') \<Longrightarrow> distinct (map fst items) \<Longrightarrow>
   fst ` set items \<inter> fst ` set r = {} \<Longrightarrow>
     r' = r @ map (\<lambda>(k, d). (k, the (map_of d ''returns''))) items"
proof (induction items arbitrary: lr r p)
  case Nil
  then show ?case by simp
next
  case (Cons it items)
  obtain k d where it: "it = (k, d)" by (cases it)
  from Cons.prems(1) it obtain a b c where abc: "map_of d ''returns'' = Some b"
    "collect_dailys items (AList.update k a lr, AList.update k b r, AList.update k c p)
       = Inr (lr', r', p')"
    by (auto simp: dict_get_Inr split: sum.splits)
  from Cons.prems(3) it have fresh: "k \<notin> fst ` set r" by auto
  then have upd: "AList.update k b r = r @ [(k, b)]" by (rule update_fresh)
  from Cons.prems(2,3) it have d: "distinct (map fst items)"
    and disj: "fst ` set items \<inter> fst ` set (AList.update k b r) = {}"
    by (auto simp: upd)
  from Cons.IH [OF abc(2) d disj] upd abc(1) it show ?case by simp
qed

lemma extract_dailys_returns:
  assumes "extract_dailys st = Inr st'" "distinct (map fst (raw_dailys st))"
  shows "returns st' = DataFrame (map (\<lambda>(k, d). (k, the (map_of d ''returns''))) (raw_dailys st))"
proof -
  from assms(1) obtain lr r p where c: "collect_dailys (raw_dailys st) ([], [], []) = Inr (lr, r, p)"
    and st': "returns st' = DataFrame r"
    by (auto simp: extract_dailys_def split: sum.splits prod.splits)
  from collect_dailys_returns [OF c assms(2)] st' show ?thesis by simp
qed

lemma map_fst_relabel: "map fst (map (\<lambda>(k, d). (k, g d)) xs) = map fst xs"
  by (induction xs) auto

lemma run_grid_returns:
  assumes rg: "run_grid bt sl ps = (invoked, Inr obj)"
  shows "distinct (map fst (wcols (returns obj)))
     \<and> set (map fst (wcols (returns obj))) = pair_key ` set invoked
     \<and> wcols (returns obj)
        = map (\<lambda>(k, d). (k, map (series_at (the (map_of d ''returns''))) (windex (returns obj))))
            (raw_dailys obj)"
proof -
  from rg obtain st st1 where rp: "run_pairs bt ps (new_optimizer sl ps) = (invoked, Inr st)"
    and es: "extract_stats st = Inr st1" and ed: "extract_dailys st1 = Inr obj"
    by (rule run_grid_Inr)
  from run_pairs_Inr [OF rp] have inv: "invoked = ps" by simp
  have d0: "distinct (map fst (raw_dailys (new_optimizer sl ps)))"
    by (simp add: new_optimizer_def)
  from run_pairs_raw_dailys [OF rp d0]
  have dst: "distinct (map fst (raw_dailys st))"
    and keys: "fst ` set (raw_dailys st) = pair_key ` set ps"
    by (simp_all add: new_optimizer_def)
  from es have rd1: "raw_dailys st1 = raw_dailys st"
    by (rule extract_stats_Inr) simp
  from ed have rd2: "raw_dailys obj = raw_dailys st1"
    by (auto simp: extract_dailys_def split: sum.splits prod.splits)
  from extract_dailys_returns [OF ed] dst rd1
  have ret: "returns obj
      = DataFrame (map (\<lambda>(k, d). (k, the (map_of d ''returns''))) (raw_dailys st))"
    by simp
  then have cols: "wcols (returns obj)
      = map (\<lambda>(k, d). (k, map (series_at (the (map_of d ''returns''))) (windex (returns obj))))
          (raw_dailys st)"
    by (simp add: DataFrame_def Let_def case_prod_unfold comp_def)
  have mf: "map fst (wcols (returns obj)) = map fst (raw_dailys st)"
    unfolding cols by (rule map_fst_relabel)
  have c1: "distinct (map fst (wcols (returns obj)))"
    unfolding mf by (rule dst)
  have c2: "set (map fst (wcols (returns obj))) = pair_key ` set invoked"
    unfolding mf using keys inv by simp
  have c3: "wcols (returns obj)
        = map (\<lambda>(k, d). (k, map (series_at (the (map_of d ''returns''))) (windex (returns obj))))
            (raw_dailys obj)"
    using cols rd1 rd2 by simp
  from c1 c2 c3 show ?thesis by blast
qed

text \<open>
  C7.  At a time step where every pair has a return, the combined return is the
  arithmetic mean of the returns of all pairs.  \<^verbatim>\<open>combine_paths\<close> has the index of
  \<^verbatim>\<open>combine\<close>, and its value at step \<open>k\<close> is the product of \<open>1 + r\<close> over the combined
  returns \<open>r\<close> up to and including step \<open>k\<close>, so it starts from 1 before the first
  return; for the combined returns \<open>0, 0.1, -0.05\<close> it is \<open>1, 1.1, 1.045\<close>.  After a
  construction the table of returns has one column per evaluated pair, the daily
  returns of that pair on the index of the table.
\<close>

theorem combine_equal_weight:
  "(i < length (windex (returns st)) \<and> wcols (returns st) \<noteq> []
      \<and> (\<forall>col \<in> set (wcols (returns st)). snd col ! i \<noteq> None) \<longrightarrow>
    combine st ! i
      = (windex (returns st) ! i,
         Some (mean (map (\<lambda>col. the (snd col ! i)) (wcols (returns st))))))
   \<and> map fst (combine_paths st) = map fst (combine st)
   \<and> (map snd (combine st) = map Some ys \<longrightarrow>
        map snd (combine_paths st)
          = map (\<lambda>k. Some (prod_list (map (\<lambda>x. x + 1) (take (Suc k) ys)))) [0..<length ys])
   \<and> (map snd (combine st) = [Some 0, Some (1 / 10), Some (- (1 / 20))] \<longrightarrow>
        map snd (combine_paths st) = [Some 1, Some (11 / 10), Some (209 / 200)])
   \<and> (Optimizer_init bt spa spb sl ps = (invoked, Inr st) \<longrightarrow>
        distinct (map fst (wcols (returns st)))
        \<and> set (map fst (wcols (returns st))) = pair_key ` set invoked
        \<and> wcols (returns st)
            = map (\<lambda>(k, d).
                     (k, map (series_at (the (map_of d ''returns''))) (windex (returns st))))
                (raw_dailys st))"
proof -
  have a: "combine st ! i
      = (windex (returns st) ! i,
         Some (mean (map (\<lambda>col. the (snd col ! i)) (wcols (returns st)))))"
    if "i < length (windex (returns st))" "wcols (returns st) \<noteq> []"
      "\<forall>col \<in> set (wcols (returns st)). snd col ! i \<noteq> None"
    using mean_axis1_nth [OF that] by (simp add: combine_def)
  have b: "map fst (combine_paths st) = map fst (combine st)"
    by (simp add: combine_paths_def cumprod_def cumprod_from_fst series_add1_fst)
  have c: "map snd (combine_paths st)
          = map (\<lambda>k. Some (prod_list (map (\<lambda>x. x + 1) (take (Suc k) zs)))) [0..<length zs]"
    if "map snd (combine st) = map Some zs" for zs
    using that by (rule combine_paths_snd)
  have d: "map snd (combine_paths st) = [Some 1, Some (11 / 10), Some (209 / 200)]"
    if "map snd (combine st) = [Some 0, Some (1 / 10), Some (- (1 / 20))]"
    using c [of "[0, 1 / 10, - (1 / 20)]"] that by (simp add: upt_rec)
  have e: "distinct (map fst (wcols (returns st)))
        \<and> set (map fst (wcols (returns st))) = pair_key ` set invoked
        \<and> wcols (returns st)
            = map (\<lambda>(k, d).
                     (k, map (series_at (the (map_of d ''returns''))) (windex (returns st))))
                (raw_dailys st)"
    if run: "Optimizer_init bt spa spb sl ps = (invoked, Inr st)"
  proof -
    from run obtain gp where "run_grid bt sl gp = (invoked, Inr st)"
      by (rule init_Inr)
    then show ?thesis by (rule run_grid_returns)
  qed
  from a b c [of ys] d e show ?thesis by blast
qed

theorem combine_equal_weight_witness:
  "Optimizer_init example_backtest [] [] (Num (PFloat (3 / 2)))
       (Some [(Num (PInt 0), Num (PInt 2)), (Num (PInt 2), Num (PInt 0))])
     = (fst combine_run, Inr combine_obj)
   \<and> set (map fst (wcols (returns combine_obj))) = pair_key ` set (fst combine_run)
   \<and> (1::nat) < length (windex (returns combine_obj))
   \<and> wcols (returns combine_obj) \<noteq> []
   \<and> list_all (\<lambda>col. snd col ! 1 \<noteq> None) (wcols (returns combine_obj))
   \<and> map (\<lambda>col. snd col ! 1) (wcols (returns combine_obj)) = [Some 0, Some (1 / 5)]
   \<and> combine combine_obj ! 1 = (1, Some (1 / 10))
   \<and> map snd (combine combine_obj) = [Some 0, Some (1 / 10), Some (- (1 / 20))]
   \<and> map snd (combine_paths combine_obj) = [Some 1, Some (11 / 10), Some (209 / 200)]"
proof -
  have h1: "(1::nat) < length (windex (returns combine_obj))"
    and h2: "wcols (returns combine_obj) \<noteq> []"
    and h3: "\<forall>col \<in> set (wcols (returns combine_obj)). snd col ! 1 \<noteq> None"
    and h4: "map (\<lambda>col. snd col ! 1) (wcols (returns combine_obj)) = [Some 0, Some (1 / 5)]"
    by (simp_all add: combine_obj_returns del: not_None_eq)
  have h5: "map snd (combine combine_obj) = [Some 0, Some (1 / 10), Some (- (1 / 20))]"
    by (simp add: combine_obj_combine)
  have m: "mean (map (\<lambda>col. the (snd col ! 1)) (wcols (returns combine_obj))) = 1 / 10"
    by (simp add: combine_obj_returns mean_def)
  have w: "windex (returns combine_obj) ! 1 = 1"
    by (simp add: combine_obj_returns)
  have run: "Optimizer_init example_backtest [] [] (Num (PFloat (3 / 2)))
       (Some [(Num (PInt 0), Num (PInt 2)), (Num (PInt 2), Num (PInt 0))])
     = (fst combine_run, Inr combine_obj)"
    using combine_run_value unfolding combine_obj_def combine_run_def [symmetric]
    by (cases "snd combine_run") (simp_all add: prod_eq_iff)
  from combine_equal_weight [of 1 combine_obj "[0, 1 / 10, - (1 / 20)]" example_backtest
      "[]" "[]" "Num (PFloat (3 / 2))"
      "Some [(Num (PInt 0), Num (PInt 2)), (Num (PInt 2), Num (PInt 0))]" "fst combine_run"]
    h1 h2 h3 h5 run
  have "combine combine_obj ! 1
      = (windex (returns combine_obj) ! 1,
         Some (mean (map (\<lambda>col. the (snd col ! 1)) (wcols (returns combine_obj)))))"
    and p: "map snd (combine_paths combine_obj) = [Some 1, Some (11 / 10), Some (209 / 200)]"
    and k: "set (map fst (wcols (returns combine_obj))) = pair_key ` set (fst combine_run)"
    by blast+
  with m w have c1: "combine combine_obj ! 1 = (1, Some (1 / 10))" by simp
  from h3 have h3': "list_all (\<lambda>col. snd col ! 1 \<noteq> None) (wcols (returns combine_obj))"
    by (simp add: list_all_iff)
  from run k h1 h2 h3' h4 c1 h5 p show ?thesis by blast
qed


end
